theory Spec2Isabelle
  imports Complex_Main
begin

section \<open>Data model\<close>

text \<open>
  The embedding follows \<^verbatim>\<open>src/src/App.jsx\<close>. A GeoJSON position is the pair
  (longitude, latitude); a ring is an array of positions; the coordinates of a Polygon
  are an array of rings (outer ring first) and those of a MultiPolygon an array of such
  arrays. JavaScript numbers are modelled as reals: every number that the geometry
  library hands back is taken to be finite and not NaN. The only infinite values the
  program itself creates are the initial values \<^verbatim>\<open>Infinity\<close> of \<^verbatim>\<open>seedArea\<close> and
  \<^verbatim>\<open>minDist\<close>; they are kept by the type \<open>jsnum\<close>.
\<close>

type_synonym position = "real \<times> real"
type_synonym ring = "position list"
type_synonym polygonCoords = "ring list"

datatype geometry =
    Polygon polygonCoords
  | MultiPolygon "polygonCoords list"
  | OtherGeometry

text \<open>
  A feature: its geometry (absent or null is \<open>None\<close>) and its properties. Every other
  field of the JavaScript object (type, id, layer, source, ...) lives in the record's
  extension, so that the object spread \<^verbatim>\<open>{ ...f, geometry: g }\<close> is the record update
  \<open>f\<lparr>geometry := Some g\<rparr>\<close>.
\<close>

record 'p feature =
  geometry :: "geometry option"
  properties :: 'p

datatype error = GeometryError

datatype jsnum = Fin real | PosInfinity | NegInfinity

text \<open>\<^verbatim>\<open>a < b\<close> on JavaScript numbers.\<close>

fun jsnum_less :: "jsnum \<Rightarrow> jsnum \<Rightarrow> bool" where
  "jsnum_less (Fin a) (Fin b) = (a < b)"
| "jsnum_less (Fin a) PosInfinity = True"
| "jsnum_less (Fin a) NegInfinity = False"
| "jsnum_less PosInfinity b = False"
| "jsnum_less NegInfinity NegInfinity = False"
| "jsnum_less NegInfinity b = True"

text \<open>
  \<^verbatim>\<open>a * m\<close> for a finite factor \<open>m\<close>. \<^verbatim>\<open>Infinity * 0\<close> is NaN in JavaScript; the
  only multiplication of the program has a factor that went through \<^verbatim>\<open>|| default\<close>
  and is never zero, and NaN behaves like \<open>NegInfinity\<close> in the one place the product
  is read (\<^verbatim>\<open>maxClusterArea > 0\<close> is false).
\<close>

fun jsnum_times :: "jsnum \<Rightarrow> real \<Rightarrow> jsnum" where
  "jsnum_times (Fin a) m = Fin (a * m)"
| "jsnum_times PosInfinity m = (if 0 < m then PosInfinity else NegInfinity)"
| "jsnum_times NegInfinity m = (if m < 0 then PosInfinity else NegInfinity)"

section \<open>The geometry library\<close>

text \<open>
  \<^verbatim>\<open>@turf/turf\<close> is not part of the repository. Its functions are parameters of the
  model: a record of pure functions, each returning \<open>Inl GeometryError\<close> where the
  JavaScript call throws. A Turf feature is represented by its geometry.

  \<^item> \<open>turf_polygon_valid\<close>: whether \<^verbatim>\<open>turf.polygon(coords)\<close> returns (it throws on a
    malformed ring); when it returns, the result is the Polygon with these coordinates.
  \<^item> \<open>turf_union\<close>, \<open>turf_cleanCoords\<close>, \<open>turf_buffer\<close>: \<open>Inr None\<close> is a null or
    undefined result.
  \<^item> \<open>turf_distance\<close> is in kilometres, \<open>turf_buffer\<close> takes metres.
\<close>

record turf =
  turf_polygon_valid :: "polygonCoords \<Rightarrow> bool"
  turf_area :: "geometry \<Rightarrow> error + real"
  turf_centroid :: "geometry \<Rightarrow> error + position"
  turf_distance :: "position \<Rightarrow> position \<Rightarrow> error + real"
  turf_booleanPointInPolygon :: "position \<Rightarrow> geometry \<Rightarrow> error + bool"
  turf_booleanIntersects :: "geometry \<Rightarrow> geometry \<Rightarrow> error + bool"
  turf_union :: "geometry \<Rightarrow> geometry \<Rightarrow> error + geometry option"
  turf_cleanCoords :: "geometry \<Rightarrow> error + geometry option"
  turf_buffer :: "geometry \<Rightarrow> real \<Rightarrow> error + geometry option"
  turf_bbox :: "geometry \<Rightarrow> error + (real \<times> real \<times> real \<times> real)"

definition turf_polygon :: "turf \<Rightarrow> polygonCoords \<Rightarrow> error + geometry" where
  "turf_polygon T coords =
     (if turf_polygon_valid T coords then Inr (Polygon coords) else Inl GeometryError)"

section \<open>Geometry utilities\<close>

definition AREA_MULTIPLIER :: real where
  "AREA_MULTIPLIER = 3"

definition MAX_NEIGHBOR_DISTANCE_KM :: real where
  "MAX_NEIGHBOR_DISTANCE_KM = 5 / 100"

text \<open>The test of one edge in \<^verbatim>\<open>pointInRing\<close>, from \<open>ring[i]\<close> to \<open>ring[j]\<close>.\<close>

definition edgeCrossed :: "position \<Rightarrow> position \<Rightarrow> position \<Rightarrow> bool" where
  "edgeCrossed point p_i p_j =
     (case point of (x, y) \<Rightarrow> case p_i of (xi, yi) \<Rightarrow> case p_j of (xj, yj) \<Rightarrow>
        ((yi > y) \<noteq> (yj > y)) \<and> x < ((xj - xi) * (y - yi)) / (yj - yi) + xi)"

text \<open>Ray casting; \<open>j\<close> runs one step behind \<open>i\<close>, starting at the last index.\<close>

definition pointInRing :: "position \<Rightarrow> ring \<Rightarrow> bool" where
  "pointInRing point ring =
     fold (\<lambda>i inside.
             let j = (if i = 0 then length ring - 1 else i - 1)
             in if edgeCrossed point (ring ! i) (ring ! j) then \<not> inside else inside)
          [0..<length ring] False"

text \<open>\<^verbatim>\<open>coordinates[0]?.length\<close>: there is an outer ring and it is not empty.\<close>

definition hasOuterRing :: "polygonCoords \<Rightarrow> bool" where
  "hasOuterRing coords = (case coords of [] \<Rightarrow> False | r # _ \<Rightarrow> r \<noteq> [])"

text \<open>The polygons one feature contributes to \<^verbatim>\<open>extractPolygonCoords\<close>.\<close>

fun polygonsOf :: "geometry option \<Rightarrow> polygonCoords list" where
  "polygonsOf None = []"
| "polygonsOf (Some (Polygon coords)) = (if hasOuterRing coords then [coords] else [])"
| "polygonsOf (Some (MultiPolygon parts)) = filter hasOuterRing parts"
| "polygonsOf (Some OtherGeometry) = []"

text \<open>\<^verbatim>\<open>try { turf.polygon(c) } catch { null }\<close>\<close>

definition polygonOrNull :: "turf \<Rightarrow> polygonCoords \<Rightarrow> geometry option" where
  "polygonOrNull T coords =
     (case turf_polygon T coords of Inl _ \<Rightarrow> None | Inr p \<Rightarrow> Some p)"

text \<open>
  What one polygon adds to \<open>coords\<close>. Both branches of the \<^verbatim>\<open>try\<close> push the
  coordinates: when \<^verbatim>\<open>turf.polygon\<close> throws, the push inside the \<^verbatim>\<open>try\<close> has already
  happened, and the \<^verbatim>\<open>catch\<close> pushes the same coordinates once more.
\<close>

definition coordsPushed :: "turf \<Rightarrow> polygonCoords \<Rightarrow> polygonCoords list" where
  "coordsPushed T coords =
     (case turf_polygon T coords of Inr _ \<Rightarrow> [coords] | Inl _ \<Rightarrow> [coords, coords])"

text \<open>
  \<^verbatim>\<open>extractPolygonCoords\<close> returns the arrays \<open>coords\<close> and \<open>turfPolys\<close>. Every
  polygon adds one entry to \<open>turfPolys\<close> (its Turf polygon, or null) and one or two
  entries to \<open>coords\<close>, so the two arrays are out of step after the first polygon that
  \<^verbatim>\<open>turf.polygon\<close> refuses.
\<close>

definition extractPolygonCoords ::
  "turf \<Rightarrow> ('p, 'z) feature_scheme list \<Rightarrow> polygonCoords list \<times> geometry option list" where
  "extractPolygonCoords T features =
     (let polygons = concat (map (\<lambda>f. polygonsOf (geometry f)) features)
      in (concat (map (coordsPushed T) polygons), map (polygonOrNull T) polygons))"

text \<open>
  \<^verbatim>\<open>turfPolys[i]\<close>: reading past the end of a JavaScript array gives undefined, which
  every reader of \<open>turfPolys\<close> treats like null.
\<close>

definition polyAt :: "geometry option list \<Rightarrow> nat \<Rightarrow> geometry option" where
  "polyAt turfPolys i = (if i < length turfPolys then turfPolys ! i else None)"

section \<open>Cluster merge engine: seed identification\<close>

text \<open>
  The third argument of \<^verbatim>\<open>pickOrMergeSourceFeatures\<close>. \<^verbatim>\<open>options.x || DEFAULT\<close>
  takes the default when the field is absent or zero.
\<close>

record options =
  areaMultiplier :: "real option"
  maxDistanceKm :: "real option"

definition orDefault :: "real option \<Rightarrow> real \<Rightarrow> real" where
  "orDefault v d = (case v of None \<Rightarrow> d | Some x \<Rightarrow> if x = 0 then d else x)"

text \<open>
  Step 1, first loop. The state is \<open>(seedIndex, seedArea)\<close>, \<open>None\<close> standing for
  the index \<open>-1\<close>. A null polygon is skipped; an exception of the containment test or
  of the area skips the fragment.
\<close>

definition containmentStep ::
  "turf \<Rightarrow> position \<Rightarrow> geometry option list \<Rightarrow> nat \<Rightarrow> nat option \<times> jsnum \<Rightarrow> nat option \<times> jsnum" where
  "containmentStep T clickPt turfPolys i st =
     (case polyAt turfPolys i of
        None \<Rightarrow> st
      | Some poly \<Rightarrow>
         (case turf_booleanPointInPolygon T clickPt poly of
            Inl _ \<Rightarrow> st
          | Inr inside \<Rightarrow>
              if inside then
                (case turf_area T poly of
                   Inl _ \<Rightarrow> st
                 | Inr a \<Rightarrow> if jsnum_less (Fin a) (snd st) then (Some i, Fin a) else st)
              else st))"

definition seedByContainment ::
  "turf \<Rightarrow> position \<Rightarrow> geometry option list \<Rightarrow> nat \<Rightarrow> nat option \<times> jsnum" where
  "seedByContainment T clickPt turfPolys n =
     fold (containmentStep T clickPt turfPolys) [0..<n] (None, PosInfinity)"

text \<open>
  Fallback: ray casting on the raw outer ring, first hit wins (\<^verbatim>\<open>break\<close>). The area
  of the hit is read outside any \<^verbatim>\<open>try\<close>, so its exception leaves the function.
\<close>

definition rayHit :: "position \<Rightarrow> polygonCoords \<Rightarrow> bool" where
  "rayHit lngLat coords = (case coords of [] \<Rightarrow> False | r # _ \<Rightarrow> pointInRing lngLat r)"

definition seedByRayCasting ::
  "turf \<Rightarrow> position \<Rightarrow> polygonCoords list \<Rightarrow> geometry option list \<Rightarrow> nat option \<times> jsnum
     \<Rightarrow> error + (nat option \<times> jsnum)" where
  "seedByRayCasting T lngLat allCoords turfPolys st =
     (case find (\<lambda>i. rayHit lngLat (allCoords ! i)) [0..<length allCoords] of
        None \<Rightarrow> Inr st
      | Some i \<Rightarrow>
         (case polyAt turfPolys i of
            None \<Rightarrow> Inr (Some i, Fin 0)
          | Some poly \<Rightarrow>
             (case turf_area T poly of
                Inl e \<Rightarrow> Inl e
              | Inr a \<Rightarrow> Inr (Some i, Fin a))))"

text \<open>
  Last resort: the polygon whose centroid is closest to the click point. The state is
  \<open>(minDist, seedIndex, seedArea)\<close>. \<open>minDist\<close> and \<open>seedIndex\<close> are assigned before
  \<^verbatim>\<open>turf.area\<close> is called, so an exception of the area keeps the new index with the
  old \<open>seedArea\<close>.
\<close>

definition nearestStep ::
  "turf \<Rightarrow> position \<Rightarrow> geometry option list \<Rightarrow> nat \<Rightarrow> jsnum \<times> nat option \<times> jsnum
     \<Rightarrow> jsnum \<times> nat option \<times> jsnum" where
  "nearestStep T clickPt turfPolys i st =
     (case st of (minDist, seedIndex, seedArea) \<Rightarrow>
        (case polyAt turfPolys i of
           None \<Rightarrow> st
         | Some poly \<Rightarrow>
            (case turf_centroid T poly of
               Inl _ \<Rightarrow> st
             | Inr c \<Rightarrow>
                (case turf_distance T clickPt c of
                   Inl _ \<Rightarrow> st
                 | Inr d \<Rightarrow>
                     if jsnum_less (Fin d) minDist then
                       (case turf_area T poly of
                          Inl _ \<Rightarrow> (Fin d, Some i, seedArea)
                        | Inr a \<Rightarrow> (Fin d, Some i, Fin a))
                     else st))))"

definition seedByNearestCentroid ::
  "turf \<Rightarrow> position \<Rightarrow> geometry option list \<Rightarrow> nat \<Rightarrow> nat option \<times> jsnum \<Rightarrow> nat option \<times> jsnum" where
  "seedByNearestCentroid T clickPt turfPolys n st =
     snd (fold (nearestStep T clickPt turfPolys) [0..<n] (PosInfinity, st))"

text \<open>The three attempts in order, each one run only while \<open>seedIndex\<close> is still \<open>-1\<close>.\<close>

definition selectSeed ::
  "turf \<Rightarrow> position \<Rightarrow> polygonCoords list \<Rightarrow> geometry option list \<Rightarrow> error + (nat option \<times> jsnum)" where
  "selectSeed T lngLat allCoords turfPolys =
     (let s1 = seedByContainment T lngLat turfPolys (length allCoords) in
      if fst s1 \<noteq> None then Inr s1
      else
        (case seedByRayCasting T lngLat allCoords turfPolys s1 of
           Inl e \<Rightarrow> Inl e
         | Inr s2 \<Rightarrow>
             if fst s2 \<noteq> None then Inr s2
             else Inr (seedByNearestCentroid T lngLat turfPolys (length allCoords) s2)))"

section \<open>Cluster merge engine: guarded expansion\<close>

text \<open>
  The values computed once before the loop: the Turf polygons, the areas (0 for a null
  polygon or a failed call), the centroids (null for a null polygon or a failed call),
  the seed's centroid, and the two thresholds. \<open>areas\<close> and \<open>centroids\<close> have one
  entry for every index of \<open>allCoords\<close>.
\<close>

record guardEnv =
  env_turfPolys :: "geometry option list"
  env_areas :: "real list"
  env_centroids :: "position option list"
  env_seedCentroid :: position
  env_maxDistanceKm :: real
  env_maxClusterArea :: jsnum

definition areaOrZero :: "turf \<Rightarrow> geometry option \<Rightarrow> real" where
  "areaOrZero T p =
     (case p of None \<Rightarrow> 0 | Some g \<Rightarrow> (case turf_area T g of Inl _ \<Rightarrow> 0 | Inr a \<Rightarrow> a))"

definition centroidOrNull :: "turf \<Rightarrow> geometry option \<Rightarrow> position option" where
  "centroidOrNull T p =
     (case p of None \<Rightarrow> None
      | Some g \<Rightarrow> (case turf_centroid T g of Inl _ \<Rightarrow> None | Inr c \<Rightarrow> Some c))"

text \<open>\<^verbatim>\<open>!seedArea || seedArea <= 0\<close>\<close>

fun notPositive :: "jsnum \<Rightarrow> bool" where
  "notPositive (Fin a) = (a = 0 \<or> a \<le> 0)"
| "notPositive PosInfinity = False"
| "notPositive NegInfinity = True"

text \<open>
  Lines 184 to 202. The seed's centroid and, when \<open>seedArea\<close> is zero or negative, the
  seed's area are computed outside any \<^verbatim>\<open>try\<close>.
\<close>

definition prepareGuards ::
  "turf \<Rightarrow> position \<Rightarrow> geometry option list \<Rightarrow> nat \<Rightarrow> nat \<Rightarrow> jsnum \<Rightarrow> real \<Rightarrow> real
     \<Rightarrow> error + guardEnv" where
  "prepareGuards T clickPt turfPolys n seedIndex seedArea areaMult maxDist =
     (let seedPoly = polyAt turfPolys seedIndex in
      case (case seedPoly of None \<Rightarrow> Inr clickPt | Some p \<Rightarrow> turf_centroid T p) of
        Inl e \<Rightarrow> Inl e
      | Inr seedCentroid \<Rightarrow>
         (case (if notPositive seedArea
                then (case seedPoly of
                        None \<Rightarrow> Inr (Fin 0)
                      | Some p \<Rightarrow> (case turf_area T p of Inl e \<Rightarrow> Inl e | Inr a \<Rightarrow> Inr (Fin a)))
                else Inr seedArea) of
            Inl e \<Rightarrow> Inl e
          | Inr seedArea' \<Rightarrow>
              Inr \<lparr> env_turfPolys = turfPolys,
                    env_areas = map (\<lambda>i. areaOrZero T (polyAt turfPolys i)) [0..<n],
                    env_centroids = map (\<lambda>i. centroidOrNull T (polyAt turfPolys i)) [0..<n],
                    env_seedCentroid = seedCentroid,
                    env_maxDistanceKm = maxDist,
                    env_maxClusterArea = jsnum_times seedArea' areaMult \<rparr>))"

text \<open>The cluster is a JavaScript Set: it keeps insertion order, the seed first.\<close>

record clusterState =
  cluster :: "nat list"
  clusterArea :: real
  changed :: bool

text \<open>
  The distance guard of candidate \<open>i\<close>: \<open>Inl\<close> when \<^verbatim>\<open>turf.distance\<close> throws, else
  whether the candidate is rejected. A candidate without a centroid is not tested.
\<close>

definition distanceGuard :: "turf \<Rightarrow> guardEnv \<Rightarrow> nat \<Rightarrow> error + bool" where
  "distanceGuard T E i =
     (case env_centroids E ! i of
        None \<Rightarrow> Inr False
      | Some candidateCentroid \<Rightarrow>
         (case turf_distance T (env_seedCentroid E) candidateCentroid of
            Inl e \<Rightarrow> Inl e
          | Inr d \<Rightarrow> Inr (d > env_maxDistanceKm E)))"

text \<open>\<^verbatim>\<open>maxClusterArea > 0 && (clusterArea + candidateArea) > maxClusterArea\<close>\<close>

definition areaGuard :: "guardEnv \<Rightarrow> real \<Rightarrow> real \<Rightarrow> bool" where
  "areaGuard E runningArea candidateArea =
     (jsnum_less (Fin 0) (env_maxClusterArea E)
      \<and> jsnum_less (env_maxClusterArea E) (Fin (runningArea + candidateArea)))"

definition touchesCluster :: "turf \<Rightarrow> guardEnv \<Rightarrow> geometry \<Rightarrow> nat list \<Rightarrow> bool" where
  "touchesCluster T E poly members =
     list_ex (\<lambda>j. case polyAt (env_turfPolys E) j of
                    None \<Rightarrow> False
                  | Some other \<Rightarrow>
                     (case turf_booleanIntersects T poly other of Inl _ \<Rightarrow> False | Inr b \<Rightarrow> b))
             members"

text \<open>
  The body of the \<^verbatim>\<open>for\<close> loop for candidate \<open>i\<close>. \<^verbatim>\<open>areas[i] || 0\<close> is
  \<open>areas[i]\<close>: the entry is a number, and zero stays zero.
\<close>

definition expandStep :: "turf \<Rightarrow> guardEnv \<Rightarrow> nat \<Rightarrow> clusterState \<Rightarrow> clusterState" where
  "expandStep T E i st =
     (if i \<in> set (cluster st) then st
      else
        case polyAt (env_turfPolys E) i of
          None \<Rightarrow> st
        | Some poly \<Rightarrow>
           (case distanceGuard T E i of
              Inl _ \<Rightarrow> st
            | Inr tooFar \<Rightarrow>
                if tooFar then st
                else
                  let candidateArea = env_areas E ! i in
                  if areaGuard E (clusterArea st) candidateArea then st
                  else if \<not> touchesCluster T E poly (cluster st) then st
                  else st\<lparr> cluster := cluster st @ [i],
                           clusterArea := clusterArea st + candidateArea,
                           changed := True \<rparr>))"

text \<open>One run of the \<^verbatim>\<open>while\<close> body: \<open>changed = false\<close>, then the scan of all indices.\<close>

definition expandPass :: "turf \<Rightarrow> guardEnv \<Rightarrow> nat \<Rightarrow> clusterState \<Rightarrow> clusterState" where
  "expandPass T E n st = fold (expandStep T E) [0..<n] (st\<lparr> changed := False \<rparr>)"

text \<open>The indices below \<open>n\<close> that are not yet members: what is left to admit.\<close>

definition outsiders :: "nat \<Rightarrow> clusterState \<Rightarrow> nat list" where
  "outsiders n st = filter (\<lambda>i. i \<notin> set (cluster st)) [0..<n]"

lemma expandStep_cases:
  "expandStep T E i st = st
   \<or> (i \<notin> set (cluster st)
      \<and> expandStep T E i st
          = st\<lparr> cluster := cluster st @ [i],
                clusterArea := clusterArea st + env_areas E ! i,
                changed := True \<rparr>)"
  by (simp add: expandStep_def Let_def split: option.split sum.split)

lemma expandStep_fold_outsiders:
  "set is \<subseteq> {0..<n} \<Longrightarrow>
   (let st' = fold (expandStep T E) is st in
      length (outsiders n st') \<le> length (outsiders n st)
      \<and> (changed st' \<longrightarrow> changed st \<or> length (outsiders n st') < length (outsiders n st)))"
proof (induction "is" arbitrary: st)
  case Nil
  then show ?case by simp
next
  case (Cons i "is")
  let ?s = "expandStep T E i st"
  from Cons.prems have i: "i < n" and rest: "set is \<subseteq> {0..<n}" by auto
  have step: "length (outsiders n ?s) \<le> length (outsiders n st)
              \<and> (changed ?s \<longrightarrow> changed st \<or> length (outsiders n ?s) < length (outsiders n st))"
  proof -
    from expandStep_cases [of T E i st] show ?thesis
    proof
      assume "?s = st"
      then show ?thesis by simp
    next
      assume a: "i \<notin> set (cluster st)
        \<and> ?s = st\<lparr> cluster := cluster st @ [i],
                   clusterArea := clusterArea st + env_areas E ! i, changed := True \<rparr>"
      have eq: "outsiders n ?s = filter (\<lambda>k. k \<noteq> i) (outsiders n st)"
        using a by (auto simp: outsiders_def intro: filter_cong)
      have mem: "i \<in> set (outsiders n st)"
        using a i by (simp add: outsiders_def)
      have "length (filter (\<lambda>k. k \<noteq> i) (outsiders n st)) < length (outsiders n st)"
        using mem by (simp add: length_filter_less)
      with eq show ?thesis by simp
    qed
  qed
  from Cons.IH [OF rest, of ?s] step show ?case
    by (auto simp: Let_def)
qed

lemma expandPass_decreases:
  "changed (expandPass T E n st) \<Longrightarrow>
   length (outsiders n (expandPass T E n st)) < length (outsiders n st)"
  using expandStep_fold_outsiders [of "[0..<n]" n T E "st\<lparr> changed := False \<rparr>"]
  by (simp add: expandPass_def Let_def outsiders_def)

text \<open>
  \<^verbatim>\<open>while (changed) { ... }\<close>, entered with \<open>changed = true\<close>: passes are repeated until
  one of them admits nobody. Every pass that admits somebody shortens \<open>outsiders\<close>.
\<close>

function expand :: "turf \<Rightarrow> guardEnv \<Rightarrow> nat \<Rightarrow> clusterState \<Rightarrow> clusterState" where
  "expand T E n st =
     (let st' = expandPass T E n st in if changed st' then expand T E n st' else st')"
  by pat_completeness auto
termination
  by (relation "measure (\<lambda>(T, E, n, st). length (outsiders n st))")
     (auto simp: expandPass_decreases)

declare expand.simps [simp del]

section \<open>Cluster merge engine: union and output\<close>

text \<open>
  The inner loop of step 3, from the second cluster polygon on. An exception of
  \<^verbatim>\<open>turf.polygon\<close> or \<^verbatim>\<open>turf.union\<close> skips the polygon and keeps the union so far; a
  null result of \<^verbatim>\<open>turf.union\<close> is stored and ends the loop.
\<close>

fun unionLoop :: "turf \<Rightarrow> geometry \<Rightarrow> polygonCoords list \<Rightarrow> geometry option" where
  "unionLoop T unionResult [] = Some unionResult"
| "unionLoop T unionResult (c # cs) =
     (case turf_polygon T c of
        Inl _ \<Rightarrow> unionLoop T unionResult cs
      | Inr next \<Rightarrow>
         (case turf_union T unionResult next of
            Inl _ \<Rightarrow> unionLoop T unionResult cs
          | Inr None \<Rightarrow> None
          | Inr (Some u) \<Rightarrow> unionLoop T u cs))"

text \<open>The outer \<^verbatim>\<open>try\<close>: a first polygon that cannot be built gives null.\<close>

definition unionCluster :: "turf \<Rightarrow> polygonCoords list \<Rightarrow> geometry option" where
  "unionCluster T clusterCoords =
     (case clusterCoords of
        [] \<Rightarrow> None
      | c # cs \<Rightarrow> (case turf_polygon T c of Inl _ \<Rightarrow> None | Inr first \<Rightarrow> unionLoop T first cs))"

text \<open>
  The search for \<open>bestIdx\<close> among the parts of a MultiPolygon, at index \<open>i\<close> with the
  remaining parts: the first part containing the click point ends the search, otherwise
  the largest area seen so far is kept.
\<close>

fun bestPart :: "turf \<Rightarrow> position \<Rightarrow> polygonCoords list \<Rightarrow> nat \<Rightarrow> nat \<Rightarrow> real \<Rightarrow> nat" where
  "bestPart T clickPt [] i bestIdx bestArea = bestIdx"
| "bestPart T clickPt (part # parts) i bestIdx bestArea =
     (case turf_polygon T part of
        Inl _ \<Rightarrow> bestPart T clickPt parts (i + 1) bestIdx bestArea
      | Inr subPoly \<Rightarrow>
         (case turf_booleanPointInPolygon T clickPt subPoly of
            Inl _ \<Rightarrow> bestPart T clickPt parts (i + 1) bestIdx bestArea
          | Inr inside \<Rightarrow>
              if inside then i
              else
                (case turf_area T subPoly of
                   Inl _ \<Rightarrow> bestPart T clickPt parts (i + 1) bestIdx bestArea
                 | Inr a \<Rightarrow>
                     if a > bestArea then bestPart T clickPt parts (i + 1) i a
                     else bestPart T clickPt parts (i + 1) bestIdx bestArea)))"

text \<open>Step 4 on a union result that is not null.\<close>

definition singlePolygonOf :: "turf \<Rightarrow> position \<Rightarrow> geometry \<Rightarrow> geometry" where
  "singlePolygonOf T clickPt geom =
     (case geom of
        MultiPolygon parts \<Rightarrow>
          if length parts > 1 then Polygon (parts ! bestPart T clickPt parts 0 0 0)
          else if length parts = 1 then Polygon (parts ! 0)
          else geom
      | _ \<Rightarrow> geom)"

text \<open>Step 4 with its fallback (lines 275 to 312).\<close>

definition finalGeometryOf ::
  "turf \<Rightarrow> position \<Rightarrow> geometry option \<Rightarrow> polygonCoords list \<Rightarrow> geometry" where
  "finalGeometryOf T clickPt unionResult clusterCoords =
     (case unionResult of
        Some geom \<Rightarrow> singlePolygonOf T clickPt geom
      | None \<Rightarrow>
          if length clusterCoords = 1 then Polygon (clusterCoords ! 0)
          else MultiPolygon clusterCoords)"

text \<open>Step 5: the cleaned geometry when there is one, else the geometry as it is.\<close>

definition cleanup :: "turf \<Rightarrow> geometry \<Rightarrow> geometry" where
  "cleanup T finalGeometry =
     (case turf_cleanCoords T finalGeometry of
        Inl _ \<Rightarrow> finalGeometry
      | Inr None \<Rightarrow> finalGeometry
      | Inr (Some cleaned) \<Rightarrow> cleaned)"

text \<open>Steps 3 to 5 for a cluster, spread over the first feature.\<close>

definition mergeCluster ::
  "turf \<Rightarrow> ('p, 'z) feature_scheme \<Rightarrow> position \<Rightarrow> polygonCoords list \<Rightarrow> nat \<Rightarrow> nat list
     \<Rightarrow> ('p, 'z) feature_scheme" where
  "mergeCluster T first clickPt allCoords seedIndex members =
     (let clusterCoords = map (\<lambda>i. allCoords ! i) members in
      if length clusterCoords = 0 then first\<lparr> geometry := Some (Polygon (allCoords ! seedIndex)) \<rparr>
      else if length clusterCoords = 1 then first\<lparr> geometry := Some (Polygon (clusterCoords ! 0)) \<rparr>
      else
        first\<lparr> geometry :=
          Some (cleanup T (finalGeometryOf T clickPt (unionCluster T clusterCoords) clusterCoords)) \<rparr>)"

text \<open>The cluster that the guarded expansion builds from a seed.\<close>

definition growCluster :: "turf \<Rightarrow> guardEnv \<Rightarrow> nat \<Rightarrow> nat \<Rightarrow> clusterState" where
  "growCluster T E n seedIndex =
     expand T E n \<lparr> cluster = [seedIndex], clusterArea = env_areas E ! seedIndex, changed = True \<rparr>"

text \<open>
  \<^verbatim>\<open>pickOrMergeSourceFeatures(features, lngLat, options)\<close>. The result is \<open>Inl\<close> when an
  exception leaves the function, \<open>Inr None\<close> for null and \<open>Inr (Some f)\<close> for a
  feature.
\<close>

definition pickOrMergeSourceFeatures ::
  "turf \<Rightarrow> ('p, 'z) feature_scheme list \<Rightarrow> position \<Rightarrow> options
     \<Rightarrow> error + ('p, 'z) feature_scheme option" where
  "pickOrMergeSourceFeatures T features lngLat opts =
     (if features = [] then Inr None
      else
        let areaMult = orDefault (areaMultiplier opts) AREA_MULTIPLIER;
            maxDist = orDefault (maxDistanceKm opts) MAX_NEIGHBOR_DISTANCE_KM;
            (allCoords, turfPolys) = extractPolygonCoords T features
        in
          if length allCoords = 0 then Inr (Some (features ! 0))
          else if length allCoords = 1
          then Inr (Some ((features ! 0)\<lparr> geometry := Some (Polygon (allCoords ! 0)) \<rparr>))
          else
            (case selectSeed T lngLat allCoords turfPolys of
               Inl e \<Rightarrow> Inl e
             | Inr (None, _) \<Rightarrow> Inr (Some (features ! 0))
             | Inr (Some seedIndex, seedArea) \<Rightarrow>
                (case prepareGuards T lngLat turfPolys (length allCoords) seedIndex seedArea areaMult maxDist of
                   Inl e \<Rightarrow> Inl e
                 | Inr E \<Rightarrow>
                     Inr (Some (mergeCluster T (features ! 0) lngLat allCoords seedIndex
                                  (cluster (growCluster T E (length allCoords) seedIndex)))))))"

section \<open>Cascading discovery controller\<close>

text \<open>\<^verbatim>\<open>toSinglePolygon\<close>: a Polygon as it is; of a MultiPolygon the first part whose
  non-empty outer ring contains the point, else the first part (for a MultiPolygon
  without parts the coordinates are undefined in JavaScript and empty here).\<close>

definition toSinglePolygon :: "('p, 'z) feature_scheme \<Rightarrow> position \<Rightarrow> geometry option" where
  "toSinglePolygon f lngLat =
     (case geometry f of
        None \<Rightarrow> None
      | Some (Polygon coords) \<Rightarrow> Some (Polygon coords)
      | Some (MultiPolygon parts) \<Rightarrow>
          (case find (\<lambda>polygon. case polygon of [] \<Rightarrow> False
                                 | exteriorRing # _ \<Rightarrow> exteriorRing \<noteq> [] \<and> pointInRing lngLat exteriorRing)
                     parts of
             Some polygon \<Rightarrow> Some (Polygon polygon)
           | None \<Rightarrow> Some (Polygon (case parts of [] \<Rightarrow> [] | first # _ \<Rightarrow> first)))
      | Some OtherGeometry \<Rightarrow> None)"

definition MAX_PASSES :: nat where
  "MAX_PASSES = 6"

definition BBOX_GROWTH :: real where
  "BBOX_GROWTH = 10 / 100"

definition POINT_BUFFER_M :: real where
  "POINT_BUFFER_M = 10"

definition ZOOM_CASCADE :: "real list" where
  "ZOOM_CASCADE = [27 / 2, 31 / 2, 35 / 2, 39 / 2]"

text \<open>
  \<^verbatim>\<open>isPointInsideResult\<close>: the direct test, then the test on the polygon buffered by
  \<open>POINT_BUFFER_M\<close> metres; any exception gives false.
\<close>

definition isPointInsideResult :: "turf \<Rightarrow> position \<Rightarrow> geometry option \<Rightarrow> bool" where
  "isPointInsideResult T clickPt geom =
     (case geom of
        None \<Rightarrow> False
      | Some feat \<Rightarrow>
         (case turf_booleanPointInPolygon T clickPt feat of
            Inl _ \<Rightarrow> False
          | Inr inside \<Rightarrow>
              if inside then True
              else
                (case turf_buffer T feat POINT_BUFFER_M of
                   Inl _ \<Rightarrow> False
                 | Inr None \<Rightarrow> False
                 | Inr (Some buffered) \<Rightarrow>
                    (case turf_booleanPointInPolygon T clickPt buffered of
                       Inl _ \<Rightarrow> False
                     | Inr insideBuffered \<Rightarrow> insideBuffered))))"

text \<open>What a zoom level hands to its callback: \<^verbatim>\<open>{ feature, geometry }\<close>.\<close>

record 'f candidate =
  cand_feature :: 'f
  cand_geometry :: "geometry option"

text \<open>The variables that \<^verbatim>\<open>runPass\<close> closes over.\<close>

record 'f passState =
  currentMerged :: "'f option"
  currentGeom :: "geometry option"
  prevDiagonal :: real
  passNumber :: nat

text \<open>
  How the chain of \<^verbatim>\<open>runPass\<close> calls ends: through the guard on the pass number (or a
  missing geometry), through convergence, or by an exception that leaves the timer
  callback, after which \<^verbatim>\<open>onResult\<close> is never called.
\<close>

datatype passExit = PassLimit | Converged | Crashed

text \<open>
  One merge of freshly queried fragments (the initial query and the query after each
  \<^verbatim>\<open>fitBounds\<close>): the state changes only when the query returns features and the merge
  returns a feature with a geometry; every exception is swallowed.
\<close>

definition requery ::
  "turf \<Rightarrow> (error + ('p, 'z) feature_scheme list) \<Rightarrow> position \<Rightarrow> options
     \<Rightarrow> ('p, 'z) feature_scheme passState \<Rightarrow> ('p, 'z) feature_scheme passState" where
  "requery T answer lngLat opts st =
     (case answer of
        Inl _ \<Rightarrow> st
      | Inr features \<Rightarrow>
          if length features > 0 then
            (case pickOrMergeSourceFeatures T features lngLat opts of
               Inl _ \<Rightarrow> st
             | Inr None \<Rightarrow> st
             | Inr (Some merged) \<Rightarrow>
                (case geometry merged of
                   None \<Rightarrow> st
                 | Some g \<Rightarrow> st\<lparr> currentMerged := Some merged, currentGeom := Some g \<rparr>))
          else st)"

text \<open>The diagonal of the bounding box of a geometry, in kilometres.\<close>

definition bboxDiagonal :: "turf \<Rightarrow> geometry \<Rightarrow> error + real" where
  "bboxDiagonal T g =
     (case turf_bbox T g of
        Inl e \<Rightarrow> Inl e
      | Inr (west, south, east, north) \<Rightarrow> turf_distance T (west, south) (east, north))"

definition growthOf :: "real \<Rightarrow> real \<Rightarrow> real" where
  "growthOf prev diagonal = (if prev > 0 then (diagonal - prev) / prev else 1)"

lemma requery_passNumber: "passNumber (requery T answer lngLat opts st) = passNumber st"
  by (simp add: requery_def split: sum.split option.split)

text \<open>
  \<^verbatim>\<open>runPass\<close>. The renderer is the function \<open>query\<close>: \<open>query k\<close> is what
  \<^verbatim>\<open>querySourceFeatures\<close> answers after the \<open>k\<close>-th \<^verbatim>\<open>fitBounds\<close> has settled. The
  function returns how the chain ended and the state it ended in.
\<close>

function runPass ::
  "turf \<Rightarrow> (nat \<Rightarrow> error + ('p, 'z) feature_scheme list) \<Rightarrow> position
     \<Rightarrow> ('p, 'z) feature_scheme passState \<Rightarrow> passExit \<times> ('p, 'z) feature_scheme passState" where
  "runPass T query lngLat st0 =
     (let st = st0\<lparr> passNumber := passNumber st0 + 1 \<rparr> in
      case currentGeom st of
        None \<Rightarrow> (PassLimit, st)
      | Some geom \<Rightarrow>
          if passNumber st > MAX_PASSES then (PassLimit, st)
          else
            (case bboxDiagonal T geom of
               Inl _ \<Rightarrow> (Crashed, st)
             | Inr diagonal \<Rightarrow>
                 if passNumber st > 1 \<and> growthOf (prevDiagonal st) diagonal < BBOX_GROWTH
                 then (Converged, st)
                 else
                   runPass T query lngLat
                     (requery T (query (passNumber st)) lngLat
                        \<lparr> areaMultiplier = Some (max AREA_MULTIPLIER 10),
                          maxDistanceKm = Some (max MAX_NEIGHBOR_DISTANCE_KM (diagonal * 2)) \<rparr>
                        (st\<lparr> prevDiagonal := diagonal \<rparr>))))"
  by pat_completeness auto

termination
  by (relation "measure (\<lambda>(T, query, lngLat, st). Suc MAX_PASSES - passNumber st)")
     (auto simp: requery_passNumber)

declare runPass.simps [simp del]

text \<open>\<^verbatim>\<open>onResult(currentMerged ? { feature: currentMerged, geometry: currentGeom } : null)\<close>\<close>

definition candidateOf :: "'f passState \<Rightarrow> 'f candidate option" where
  "candidateOf st =
     (case currentMerged st of
        None \<Rightarrow> None
      | Some merged \<Rightarrow> Some \<lparr> cand_feature = merged, cand_geometry = currentGeom st \<rparr>)"

text \<open>
  What the renderer shows at one zoom level: the rendered features near the point,
  which of them lie on a building-like layer, whether an identity filter that returns
  fragments was found, and the answers of the source queries (\<open>view_query 0\<close> for the
  initial query).
\<close>

record ('p, 'z) zoomView =
  view_rendered :: "('p, 'z) feature_scheme list"
  view_buildingLayer :: "('p, 'z) feature_scheme \<Rightarrow> bool"
  view_workingFilter :: bool
  view_query :: "nat \<Rightarrow> error + ('p, 'z) feature_scheme list"

definition isPolygonal :: "geometry option \<Rightarrow> bool" where
  "isPolygonal g = (case g of Some (Polygon _) \<Rightarrow> True | Some (MultiPolygon _) \<Rightarrow> True | _ \<Rightarrow> False)"

definition noOptions :: options where
  "noOptions = \<lparr> areaMultiplier = None, maxDistanceKm = None \<rparr>"

text \<open>
  \<^verbatim>\<open>discoverAtZoom\<close>: \<open>Inr r\<close> when the callback is called with \<open>r\<close>, \<open>Inl\<close> when it
  is never called.
\<close>

definition discoverAtZoom ::
  "turf \<Rightarrow> ('p, 'z) zoomView \<Rightarrow> position \<Rightarrow> error + ('p, 'z) feature_scheme candidate option" where
  "discoverAtZoom T V lngLat =
     (case find (\<lambda>f. isPolygonal (geometry f) \<and> view_buildingLayer V f) (view_rendered V) of
        None \<Rightarrow> Inr None
      | Some building \<Rightarrow>
          if \<not> view_workingFilter V then
            (case (case toSinglePolygon building lngLat of
                     Some g \<Rightarrow> Some g | None \<Rightarrow> geometry building) of
               None \<Rightarrow> Inr None
             | Some geom \<Rightarrow> Inr (Some \<lparr> cand_feature = building, cand_geometry = Some geom \<rparr>))
          else
            (case runPass T (view_query V) lngLat
                    (requery T (view_query V 0) lngLat noOptions
                       \<lparr> currentMerged = None, currentGeom = geometry building,
                         prevDiagonal = 0, passNumber = 0 \<rparr>) of
               (Crashed, _) \<Rightarrow> Inl GeometryError
             | (_, st) \<Rightarrow> Inr (candidateOf st)))"

text \<open>
  How a discovery run ends: a validated candidate is shown, the best available
  candidate is shown, the error "No building found at this location." is set, or a
  zoom level never calls back and the run stays pending.
\<close>

datatype 'c discovery = Validated 'c | BestAvailable 'c | NoBuildingFound | Pending

text \<open>
  \<^verbatim>\<open>tryNextZoom\<close> with its two variables \<open>zoomIndex\<close> and \<open>bestResult\<close>; \<open>discover\<close>
  is \<^verbatim>\<open>discoverAtZoom\<close> at the given zoom and \<open>valid\<close> is \<^verbatim>\<open>isPointInsideResult\<close>.
\<close>

function tryNextZoom ::
  "(real \<Rightarrow> error + 'f candidate option) \<Rightarrow> (geometry option \<Rightarrow> bool) \<Rightarrow> nat
     \<Rightarrow> 'f candidate option \<Rightarrow> 'f candidate discovery" where
  "tryNextZoom discover valid zoomIndex bestResult =
     (if zoomIndex \<ge> length ZOOM_CASCADE then
        (case bestResult of Some best \<Rightarrow> BestAvailable best | None \<Rightarrow> NoBuildingFound)
      else
        (case discover (ZOOM_CASCADE ! zoomIndex) of
           Inl _ \<Rightarrow> Pending
         | Inr None \<Rightarrow> tryNextZoom discover valid (zoomIndex + 1) bestResult
         | Inr (Some result) \<Rightarrow>
             if cand_geometry result = None
             then tryNextZoom discover valid (zoomIndex + 1) bestResult
             else if valid (cand_geometry result) then Validated result
             else tryNextZoom discover valid (zoomIndex + 1) (Some result)))"
  by pat_completeness auto
termination
  by (relation "measure (\<lambda>(discover, valid, zoomIndex, bestResult). length ZOOM_CASCADE - zoomIndex)")
     auto

declare tryNextZoom.simps [simp del]

text \<open>The cascade as \<^verbatim>\<open>handleGetBuildingAtLocation\<close> starts it.\<close>

definition discoverBuilding ::
  "turf \<Rightarrow> (real \<Rightarrow> ('p, 'z) zoomView) \<Rightarrow> position \<Rightarrow> ('p, 'z) feature_scheme candidate discovery" where
  "discoverBuilding T world lngLat =
     tryNextZoom (\<lambda>zoom. discoverAtZoom T (world zoom) lngLat) (isPointInsideResult T lngLat) 0 None"

section \<open>Notions used to state the properties of the seed selection\<close>

text \<open>The area of fragment \<open>i\<close> when the first loop takes it into account: it has a
  Turf polygon, the rigorous point-in-polygon test says yes, and its area is computed.\<close>

definition areaIfContaining :: "turf \<Rightarrow> position \<Rightarrow> geometry option list \<Rightarrow> nat \<Rightarrow> real option" where
  "areaIfContaining T clickPt turfPolys i =
     (case polyAt turfPolys i of
        None \<Rightarrow> None
      | Some poly \<Rightarrow>
         (case turf_booleanPointInPolygon T clickPt poly of
            Inl _ \<Rightarrow> None
          | Inr inside \<Rightarrow>
              if inside then (case turf_area T poly of Inl _ \<Rightarrow> None | Inr a \<Rightarrow> Some a)
              else None))"

text \<open>The distance from the click point to the centroid of fragment \<open>i\<close> when the
  last loop takes it into account.\<close>

definition centroidDistance :: "turf \<Rightarrow> position \<Rightarrow> geometry option list \<Rightarrow> nat \<Rightarrow> real option" where
  "centroidDistance T clickPt turfPolys i =
     (case polyAt turfPolys i of
        None \<Rightarrow> None
      | Some poly \<Rightarrow>
         (case turf_centroid T poly of
            Inl _ \<Rightarrow> None
          | Inr c \<Rightarrow> (case turf_distance T clickPt c of Inl _ \<Rightarrow> None | Inr d \<Rightarrow> Some d)))"

text \<open>\<open>k\<close> is the first index below \<open>n\<close> at which \<open>f\<close> is least, with value \<open>a\<close>;
  and no index below \<open>n\<close> satisfies \<open>P\<close>.\<close>

definition firstLeast :: "(nat \<Rightarrow> real option) \<Rightarrow> nat \<Rightarrow> nat \<Rightarrow> real \<Rightarrow> bool" where
  "firstLeast f n k a =
     (k < n \<and> f k = Some a
      \<and> list_all (\<lambda>j. case f j of None \<Rightarrow> True | Some b \<Rightarrow> a \<le> b \<and> (j < k \<longrightarrow> a < b)) [0..<n])"

definition noneBelow :: "(nat \<Rightarrow> bool) \<Rightarrow> nat \<Rightarrow> bool" where
  "noneBelow P n = list_all (\<lambda>j. \<not> P j) [0..<n]"

text \<open>The step that the first and the last loop of the seed selection share.\<close>

definition argStep :: "(nat \<Rightarrow> real option) \<Rightarrow> nat \<Rightarrow> nat option \<times> jsnum \<Rightarrow> nat option \<times> jsnum" where
  "argStep f i st =
     (case f i of
        None \<Rightarrow> st
      | Some a \<Rightarrow> if jsnum_less (Fin a) (snd st) then (Some i, Fin a) else st)"

text \<open>What \<^verbatim>\<open>turf.union\<close> returns when it is not null: a Polygon, or a MultiPolygon
  with parts.\<close>

definition unionShaped :: "geometry \<Rightarrow> bool" where
  "unionShaped g = (case g of Polygon _ \<Rightarrow> True | MultiPolygon parts \<Rightarrow> parts \<noteq> [] | OtherGeometry \<Rightarrow> False)"

section \<open>Notions used to state the properties of the cascade\<close>

text \<open>
  A zoom level makes the controller go on to the next one when its callback is called
  with null, with a candidate without geometry, or with a candidate that fails the
  validation.
\<close>

definition escalates :: "(real \<Rightarrow> error + 'f candidate option) \<Rightarrow> (geometry option \<Rightarrow> bool) \<Rightarrow> real \<Rightarrow> bool" where
  "escalates discover valid zoom =
     (case discover zoom of
        Inl _ \<Rightarrow> False
      | Inr None \<Rightarrow> True
      | Inr (Some c) \<Rightarrow> cand_geometry c = None \<or> \<not> valid (cand_geometry c))"

text \<open>The candidates with a geometry that the zoom levels hand back, in cascade order.\<close>

definition offered :: "(real \<Rightarrow> error + 'f candidate option) \<Rightarrow> real list \<Rightarrow> 'f candidate list" where
  "offered discover zooms =
     concat (map (\<lambda>zoom. case discover zoom of
                            Inr (Some c) \<Rightarrow> if cand_geometry c = None then [] else [c]
                          | _ \<Rightarrow> []) zooms)"

text \<open>\<^verbatim>\<open>tryNextZoom\<close> read as a recursion over the zoom levels that are left.\<close>

fun cascade ::
  "(real \<Rightarrow> error + 'f candidate option) \<Rightarrow> (geometry option \<Rightarrow> bool) \<Rightarrow> real list
     \<Rightarrow> 'f candidate option \<Rightarrow> 'f candidate discovery" where
  "cascade discover valid [] bestResult =
     (case bestResult of Some best \<Rightarrow> BestAvailable best | None \<Rightarrow> NoBuildingFound)"
| "cascade discover valid (zoom # zooms) bestResult =
     (case discover zoom of
        Inl _ \<Rightarrow> Pending
      | Inr None \<Rightarrow> cascade discover valid zooms bestResult
      | Inr (Some result) \<Rightarrow>
          if cand_geometry result = None then cascade discover valid zooms bestResult
          else if valid (cand_geometry result) then Validated result
          else cascade discover valid zooms (Some result))"


section \<open>A concrete geometry library for examples\<close>

text \<open>
  To run the model on concrete inputs, \<open>boxTurf\<close> is a small planar stand-in for the
  geometry library. It reads a polygon as the bounding box of its outer ring, which is
  exact for the axis-parallel rectangles of the examples: the area is the area of the
  box, the centroid its centre, containment and intersection include the boundary, the
  distance is the sum of the coordinate differences, \<open>polygon\<close> wants closed rings of
  at least four positions, and the union of two polygons is the rectangle around both
  when they meet, both parts when they do not, and null when it has no area.
\<close>

type_synonym box = "real \<times> real \<times> real \<times> real"

definition ringBox :: "ring \<Rightarrow> box option" where
  "ringBox r =
     (case r of
        [] \<Rightarrow> None
      | (x, y) # ps \<Rightarrow>
          Some (fold (\<lambda>(px, py) (a, b, c, d). (min a px, min b py, max c px, max d py))
                     ps (x, y, x, y)))"

definition boxOf :: "geometry \<Rightarrow> box option" where
  "boxOf g = (case g of Polygon (r # _) \<Rightarrow> ringBox r | _ \<Rightarrow> None)"

definition boxArea :: "box \<Rightarrow> real" where
  "boxArea bx = (case bx of (a, b, c, d) \<Rightarrow> (c - a) * (d - b))"

definition boxCentre :: "box \<Rightarrow> position" where
  "boxCentre bx = (case bx of (a, b, c, d) \<Rightarrow> ((a + c) / 2, (b + d) / 2))"

definition boxHas :: "box \<Rightarrow> position \<Rightarrow> bool" where
  "boxHas bx p =
     (case bx of (a, b, c, d) \<Rightarrow> case p of (x, y) \<Rightarrow> a \<le> x \<and> x \<le> c \<and> b \<le> y \<and> y \<le> d)"

definition boxesMeet :: "box \<Rightarrow> box \<Rightarrow> bool" where
  "boxesMeet p q =
     (case p of (a, b, c, d) \<Rightarrow> case q of (a', b', c', d') \<Rightarrow>
        a \<le> c' \<and> a' \<le> c \<and> b \<le> d' \<and> b' \<le> d)"

definition boxHull :: "box \<Rightarrow> box \<Rightarrow> box" where
  "boxHull p q =
     (case p of (a, b, c, d) \<Rightarrow> case q of (a', b', c', d') \<Rightarrow>
        (min a a', min b b', max c c', max d d'))"

definition boxRing :: "box \<Rightarrow> ring" where
  "boxRing bx = (case bx of (a, b, c, d) \<Rightarrow> [(a, b), (c, b), (c, d), (a, d), (a, b)])"

definition onBox :: "(box \<Rightarrow> 'a) \<Rightarrow> geometry \<Rightarrow> error + 'a" where
  "onBox f g = (case boxOf g of None \<Rightarrow> Inl GeometryError | Some bx \<Rightarrow> Inr (f bx))"

definition closedRing :: "ring \<Rightarrow> bool" where
  "closedRing r = (4 \<le> length r \<and> hd r = last r)"

definition boxUnion :: "geometry \<Rightarrow> geometry \<Rightarrow> error + geometry option" where
  "boxUnion g h =
     (case (g, h) of
        (Polygon cg, Polygon ch) \<Rightarrow>
          (case (boxOf g, boxOf h) of
             (Some p, Some q) \<Rightarrow>
               if boxArea (boxHull p q) = 0 then Inr None
               else if boxesMeet p q then Inr (Some (Polygon [boxRing (boxHull p q)]))
               else Inr (Some (MultiPolygon [cg, ch]))
           | _ \<Rightarrow> Inl GeometryError)
      | _ \<Rightarrow> Inl GeometryError)"

definition boxTurf :: turf where
  "boxTurf =
     \<lparr> turf_polygon_valid = (\<lambda>coords. coords \<noteq> [] \<and> list_all closedRing coords),
       turf_area = onBox boxArea,
       turf_centroid = onBox boxCentre,
       turf_distance = (\<lambda>p q. Inr (\<bar>fst p - fst q\<bar> + \<bar>snd p - snd q\<bar>)),
       turf_booleanPointInPolygon = (\<lambda>p. onBox (\<lambda>bx. boxHas bx p)),
       turf_booleanIntersects =
         (\<lambda>g h. case (boxOf g, boxOf h) of
                  (Some p, Some q) \<Rightarrow> Inr (boxesMeet p q)
                | _ \<Rightarrow> Inl GeometryError),
       turf_union = boxUnion,
       turf_cleanCoords = (\<lambda>g. Inr (Some g)),
       turf_buffer =
         (\<lambda>g r. case boxOf g of
                  None \<Rightarrow> Inl GeometryError
                | Some (a, b, c, d) \<Rightarrow> Inr (Some (Polygon [boxRing (a - r, b - r, c + r, d + r)]))),
       turf_bbox = onBox (\<lambda>bx. bx) \<rparr>"

text \<open>The unit square with lower left corner \<open>(x, y)\<close>, and a feature carrying a name.\<close>

definition unitSquare :: "real \<Rightarrow> real \<Rightarrow> polygonCoords" where
  "unitSquare x y = [[(x, y), (x + 1, y), (x + 1, y + 1), (x, y + 1), (x, y)]]"

definition named :: "geometry option \<Rightarrow> string \<Rightarrow> string feature" where
  "named g name = \<lparr> geometry = g, properties = name \<rparr>"

definition upToKm :: "real \<Rightarrow> options" where
  "upToKm km = \<lparr> areaMultiplier = None, maxDistanceKm = Some km \<rparr>"

text \<open>Two scripted renderers for the cascade: one that validates at the second zoom level
  (and would never call back at the third), one that never validates.\<close>

definition offer :: "string \<Rightarrow> polygonCoords \<Rightarrow> string candidate option" where
  "offer name coords = Some \<lparr> cand_feature = name, cand_geometry = Some (Polygon coords) \<rparr>"

definition secondZoomHits :: "real \<Rightarrow> error + string candidate option" where
  "secondZoomHits zoom =
     (if zoom = 27 / 2 then Inr (offer ''coarse'' (unitSquare 50 0))
      else if zoom = 31 / 2 then Inr (offer ''fine'' (unitSquare 0 0))
      else Inl GeometryError)"

definition neverHits :: "real \<Rightarrow> error + string candidate option" where
  "neverHits zoom =
     (if zoom = 27 / 2 then Inr (offer ''coarse'' (unitSquare 50 0))
      else if zoom = 35 / 2 then Inr (offer ''finer'' (unitSquare 40 0))
      else Inr None)"




text \<open>
  A row of unit squares for the expansion: index 2 holds the click point, index 1 and
  then index 0 continue it to the right, index 4 touches index 0, and index 3 lies
  apart. \<open>rowEnv cap maxDist\<close> is what \<^verbatim>\<open>prepareGuards\<close> computes for it.
\<close>

definition row :: "polygonCoords list" where
  "row = [unitSquare 2 0, unitSquare 1 0, unitSquare 0 0, unitSquare 5 0, unitSquare 3 0]"

definition rowEnv :: "real \<Rightarrow> real \<Rightarrow> guardEnv" where
  "rowEnv cap maxDist =
     \<lparr> env_turfPolys = map (\<lambda>c. Some (Polygon c)) row,
       env_areas = [1, 1, 1, 1, 1],
       env_centroids = [Some (5 / 2, 1 / 2), Some (3 / 2, 1 / 2), Some (1 / 2, 1 / 2),
                        Some (11 / 2, 1 / 2), Some (7 / 2, 1 / 2)],
       env_seedCentroid = (1 / 2, 1 / 2),
       env_maxDistanceKm = maxDist,
       env_maxClusterArea = Fin cap \<rparr>"

text \<open>A degenerate fragment without area, closed and with four positions, and the guard
  values for it as seed next to a unit square.\<close>

definition sliver :: polygonCoords where
  "sliver = [[(0, 0), (1, 0), (1, 0), (0, 0)]]"

definition sliverEnv :: guardEnv where
  "sliverEnv =
     \<lparr> env_turfPolys = [Some (Polygon sliver), Some (Polygon (unitSquare 0 0))],
       env_areas = [0, 1],
       env_centroids = [Some (1 / 2, 0), Some (1 / 2, 1 / 2)],
       env_seedCentroid = (1 / 2, 0),
       env_maxDistanceKm = 2,
       env_maxClusterArea = Fin 0 \<rparr>"

text \<open>The example library with a centroid that fails on one square.\<close>

definition blindTurf :: turf where
  "blindTurf =
     boxTurf\<lparr> turf_centroid :=
       (\<lambda>g. if g = Polygon (unitSquare 1 0) then Inl GeometryError else turf_centroid boxTurf g) \<rparr>"

text \<open>What \<^verbatim>\<open>prepareGuards\<close> computes with \<open>blindTurf\<close> for a unit square as seed
  and its right neighbour, under the default guards.\<close>

definition blindEnv :: guardEnv where
  "blindEnv =
     \<lparr> env_turfPolys = [Some (Polygon (unitSquare 0 0)), Some (Polygon (unitSquare 1 0))],
       env_areas = [1, 1],
       env_centroids = [Some (1 / 2, 1 / 2), None],
       env_seedCentroid = (1 / 2, 1 / 2),
       env_maxDistanceKm = 1 / 20,
       env_maxClusterArea = Fin 3 \<rparr>"

text \<open>The example library with an area that always fails.\<close>

definition areaLessTurf :: turf where
  "areaLessTurf = boxTurf\<lparr> turf_area := (\<lambda>g. Inl GeometryError) \<rparr>"

text \<open>A square ring that is not closed: \<^verbatim>\<open>turf.polygon\<close> refuses it, ray casting
  does not.\<close>

definition openSquare :: "real \<Rightarrow> real \<Rightarrow> polygonCoords" where
  "openSquare x y = [[(x, y), (x + 4, y), (x + 4, y + 4), (x, y + 4)]]"

section \<open>Properties of the merge: degenerate inputs and the frame\<close>

lemma mergeCluster_frame:
  "\<exists>g. mergeCluster T first clickPt allCoords seedIndex members = first\<lparr> geometry := Some g \<rparr>"
  unfolding mergeCluster_def Let_def by auto

lemma merge_result_shape:
  assumes "pickOrMergeSourceFeatures T features lngLat opts = Inr (Some r)"
  shows "features \<noteq> [] \<and> (r = features ! 0 \<or> (\<exists>g. r = (features ! 0)\<lparr> geometry := Some g \<rparr>))"
proof -
  from assms have ne: "features \<noteq> []"
    by (auto simp: pickOrMergeSourceFeatures_def)
  obtain allCoords turfPolys where ex: "extractPolygonCoords T features = (allCoords, turfPolys)"
    by (cases "extractPolygonCoords T features")
  from assms ne ex mergeCluster_frame
  have "r = features ! 0 \<or> (\<exists>g. r = (features ! 0)\<lparr> geometry := Some g \<rparr>)"
    by (fastforce simp: pickOrMergeSourceFeatures_def Let_def
             split: if_splits sum.splits option.splits prod.splits)
  with ne show ?thesis by simp
qed

text \<open>
  The two shortcuts after the flattening test the length of \<open>allCoords\<close>, which
  holds the polygons of all features in order, a polygon that \<^verbatim>\<open>turf.polygon\<close> refuses
  twice. When \<open>allCoords\<close> is empty, the first raw feature is returned unchanged; when
  it has exactly one entry, that entry is returned at once as a Polygon spread over the
  first feature.
\<close>

lemma flatten_degenerate_cases:
  "features \<noteq> [] \<Longrightarrow>
     fst (extractPolygonCoords T features)
       = concat (map (coordsPushed T) (concat (map (\<lambda>f. polygonsOf (geometry f)) features)))
     \<and> (fst (extractPolygonCoords T features) = [] \<longrightarrow>
          pickOrMergeSourceFeatures T features lngLat opts = Inr (Some (features ! 0)))
     \<and> (\<forall>c. fst (extractPolygonCoords T features) = [c] \<longrightarrow>
          pickOrMergeSourceFeatures T features lngLat opts
            = Inr (Some ((features ! 0)\<lparr> geometry := Some (Polygon c) \<rparr>)))"
  by (auto simp: pickOrMergeSourceFeatures_def extractPolygonCoords_def Let_def)

text \<open>
  Claim C9. A single polygon that \<^verbatim>\<open>turf.polygon\<close> refuses is one fragment, but it is
  in \<open>allCoords\<close> twice, so the test \<^verbatim>\<open>allCoords.length === 1\<close> fails and the fragment
  is not returned at once: the seed selection runs, and the result depends on the click
  point. With the click outside the ring no seed is found and the raw feature comes
  back, here a MultiPolygon; with the click inside, ray casting finds the ring and it
  comes back as a Polygon.
\<close>

theorem refused_single_polygon_misses_shortcut:
  "extractPolygonCoords boxTurf [named (Some (MultiPolygon [openSquare 10 10])) ''raw'']
     = ([openSquare 10 10, openSquare 10 10], [None])
   \<and> pickOrMergeSourceFeatures boxTurf
        [named (Some (MultiPolygon [openSquare 10 10])) ''raw''] (0, 0) noOptions
       = Inr (Some (named (Some (MultiPolygon [openSquare 10 10])) ''raw''))
   \<and> pickOrMergeSourceFeatures boxTurf
        [named (Some (MultiPolygon [openSquare 10 10])) ''raw''] (11, 11) noOptions
       = Inr (Some (named (Some (Polygon (openSquare 10 10))) ''raw''))"
  by code_simp

text \<open>
  Claim C10. Whatever feature \<^verbatim>\<open>pickOrMergeSourceFeatures\<close> returns, it is the first
  input feature with at most its geometry replaced: the properties and every other
  field are those of \<open>features[0]\<close>, also when the seed fragment came from another
  feature.
\<close>

theorem merge_keeps_first_feature_fields:
  "pickOrMergeSourceFeatures T features lngLat opts = Inr (Some r) \<Longrightarrow>
     features \<noteq> []
     \<and> properties r = properties (features ! 0)
     \<and> feature.more r = feature.more (features ! 0)
     \<and> r\<lparr> geometry := geometry (features ! 0) \<rparr> = features ! 0"
  using merge_result_shape [of T features lngLat opts r] by auto

theorem merge_keeps_first_feature_fields_witness:
  "pickOrMergeSourceFeatures boxTurf
      [named (Some (Polygon (unitSquare 0 0))) ''first'',
       named (Some (Polygon (unitSquare 5 0))) ''second''] (11 / 2, 1 / 2) (upToKm 2)
     = Inr (Some (named (Some (Polygon (unitSquare 5 0))) ''first''))
   \<and> properties (named (Some (Polygon (unitSquare 5 0))) ''first'')
       = properties ([named (Some (Polygon (unitSquare 0 0))) ''first'',
                      named (Some (Polygon (unitSquare 5 0))) ''second''] ! 0)"
proof -
  have run: "pickOrMergeSourceFeatures boxTurf
      [named (Some (Polygon (unitSquare 0 0))) ''first'',
       named (Some (Polygon (unitSquare 5 0))) ''second''] (11 / 2, 1 / 2) (upToKm 2)
     = Inr (Some (named (Some (Polygon (unitSquare 5 0))) ''first''))"
    by code_simp
  from merge_keeps_first_feature_fields [OF run] run show ?thesis by simp
qed

section \<open>Properties of the discovery controller\<close>

lemma tryNextZoom_cascade:
  "tryNextZoom discover valid zoomIndex bestResult
     = cascade discover valid (drop zoomIndex ZOOM_CASCADE) bestResult"
proof (induction discover valid zoomIndex bestResult rule: tryNextZoom.induct)
  case (1 discover valid zoomIndex bestResult)
  show ?case
  proof (cases "zoomIndex \<ge> length ZOOM_CASCADE")
    case True
    then show ?thesis by (simp add: tryNextZoom.simps [of discover valid zoomIndex])
  next
    case False
    then have d: "drop zoomIndex ZOOM_CASCADE
                    = ZOOM_CASCADE ! zoomIndex # drop (zoomIndex + 1) ZOOM_CASCADE"
      by (simp add: Cons_nth_drop_Suc)
    show ?thesis
      using False "1.IH"
      by (subst tryNextZoom.simps, subst d)
         (auto split: sum.splits option.splits)
  qed
qed

lemma cascade_validated:
  "\<forall>z \<in> set pre. escalates discover valid z \<Longrightarrow>
   discover zoom = Inr (Some c) \<Longrightarrow> cand_geometry c \<noteq> None \<Longrightarrow> valid (cand_geometry c) \<Longrightarrow>
   cascade discover valid (pre @ zoom # post) bestResult = Validated c"
  by (induction pre arbitrary: bestResult)
     (auto simp: escalates_def split: sum.splits option.splits)

lemma offered_Cons:
  "offered discover (z # zooms)
     = (case discover z of
          Inr (Some c) \<Rightarrow> if cand_geometry c = None then [] else [c]
        | _ \<Rightarrow> []) @ offered discover zooms"
  by (simp add: offered_def)

lemma cascade_exhausted:
  "\<forall>z \<in> set zooms. escalates discover valid z \<Longrightarrow>
   cascade discover valid zooms bestResult
     = (if offered discover zooms = []
        then (case bestResult of Some best \<Rightarrow> BestAvailable best | None \<Rightarrow> NoBuildingFound)
        else BestAvailable (last (offered discover zooms)))"
proof (induction zooms arbitrary: bestResult)
  case Nil
  then show ?case by (simp add: offered_def)
next
  case (Cons z zooms)
  then show ?case
    by (auto simp: escalates_def offered_Cons split: sum.splits option.splits)
qed

lemma cascade_none:
  "cascade discover valid zooms bestResult = NoBuildingFound
     \<longleftrightarrow> bestResult = None \<and> (\<forall>z \<in> set zooms. discover z = Inr None
             \<or> (\<exists>c. discover z = Inr (Some c) \<and> cand_geometry c = None))"
  by (induction zooms arbitrary: bestResult)
     (auto split: sum.splits option.splits)

text \<open>
  Claim C6. Over the zoom cascade: (1) the first zoom level whose candidate passes the
  validation ends the run with that candidate, whatever later zoom levels would do
  (the statement holds for every \<open>discover\<close>, also one that never calls back later);
  (2) when every zoom level calls back and none validates, the run ends with the last
  candidate that was offered, so a later candidate has replaced every earlier one, and
  with \<open>NoBuildingFound\<close> when none was offered; (3) \<open>NoBuildingFound\<close> is the result
  exactly when no zoom level offered a candidate, and it is the only error among the
  results of a run.
\<close>

theorem zoom_cascade_outcome:
  "(k < length ZOOM_CASCADE
      \<and> (\<forall>j < k. escalates discover valid (ZOOM_CASCADE ! j))
      \<and> discover (ZOOM_CASCADE ! k) = Inr (Some c)
      \<and> cand_geometry c \<noteq> None \<and> valid (cand_geometry c)
      \<longrightarrow> tryNextZoom discover valid 0 None = Validated c)
   \<and> ((\<forall>z \<in> set ZOOM_CASCADE. escalates discover valid z)
      \<longrightarrow> tryNextZoom discover valid 0 None
            = (if offered discover ZOOM_CASCADE = [] then NoBuildingFound
               else BestAvailable (last (offered discover ZOOM_CASCADE))))
   \<and> (tryNextZoom discover valid 0 None = NoBuildingFound
        \<longleftrightarrow> (\<forall>z \<in> set ZOOM_CASCADE. discover z = Inr None
               \<or> (\<exists>c. discover z = Inr (Some c) \<and> cand_geometry c = None)))"
proof (intro conjI impI)
  assume a: "k < length ZOOM_CASCADE
      \<and> (\<forall>j < k. escalates discover valid (ZOOM_CASCADE ! j))
      \<and> discover (ZOOM_CASCADE ! k) = Inr (Some c)
      \<and> cand_geometry c \<noteq> None \<and> valid (cand_geometry c)"
  then have split: "ZOOM_CASCADE = take k ZOOM_CASCADE @ ZOOM_CASCADE ! k # drop (Suc k) ZOOM_CASCADE"
    by (simp add: id_take_nth_drop)
  have pre: "\<forall>z \<in> set (take k ZOOM_CASCADE). escalates discover valid z"
    using a by (auto simp: in_set_conv_nth)
  have "cascade discover valid (take k ZOOM_CASCADE @ ZOOM_CASCADE ! k # drop (Suc k) ZOOM_CASCADE) None
          = Validated c"
    using a pre by (intro cascade_validated) auto
  with split show "tryNextZoom discover valid 0 None = Validated c"
    by (simp add: tryNextZoom_cascade)
next
  assume "\<forall>z \<in> set ZOOM_CASCADE. escalates discover valid z"
  from cascade_exhausted [OF this, of None]
  show "tryNextZoom discover valid 0 None
            = (if offered discover ZOOM_CASCADE = [] then NoBuildingFound
               else BestAvailable (last (offered discover ZOOM_CASCADE)))"
    by (simp add: tryNextZoom_cascade)
next
  show "tryNextZoom discover valid 0 None = NoBuildingFound
        \<longleftrightarrow> (\<forall>z \<in> set ZOOM_CASCADE. discover z = Inr None
               \<or> (\<exists>c. discover z = Inr (Some c) \<and> cand_geometry c = None))"
    by (simp add: tryNextZoom_cascade cascade_none)
qed

theorem zoom_cascade_outcome_witness:
  "tryNextZoom secondZoomHits (isPointInsideResult boxTurf (1 / 2, 1 / 2)) 0 None
     = Validated \<lparr> cand_feature = ''fine'', cand_geometry = Some (Polygon (unitSquare 0 0)) \<rparr>
   \<and> secondZoomHits (ZOOM_CASCADE ! 2) = Inl GeometryError
   \<and> tryNextZoom neverHits (isPointInsideResult boxTurf (1 / 2, 1 / 2)) 0 None
       = BestAvailable \<lparr> cand_feature = ''finer'', cand_geometry = Some (Polygon (unitSquare 40 0)) \<rparr>
   \<and> tryNextZoom (\<lambda>zoom. Inr None) (isPointInsideResult boxTurf (1 / 2, 1 / 2)) 0
        (None :: string candidate option) = NoBuildingFound"
proof -
  let ?v = "isPointInsideResult boxTurf (1 / 2, 1 / 2)"
  let ?c = "\<lparr> cand_feature = ''fine'', cand_geometry = Some (Polygon (unitSquare 0 0)) \<rparr>"
  have far: "\<not> ?v (Some (Polygon (unitSquare 50 0)))" by code_simp
  have far2: "\<not> ?v (Some (Polygon (unitSquare 40 0)))" by code_simp
  have near: "?v (Some (Polygon (unitSquare 0 0)))" by code_simp
  have h1: "(1::nat) < length ZOOM_CASCADE
      \<and> (\<forall>j < 1. escalates secondZoomHits ?v (ZOOM_CASCADE ! j))
      \<and> secondZoomHits (ZOOM_CASCADE ! 1) = Inr (Some ?c)
      \<and> cand_geometry ?c \<noteq> None \<and> ?v (cand_geometry ?c)"
    using far near
    by (simp add: ZOOM_CASCADE_def escalates_def secondZoomHits_def offer_def)
  have h2: "\<forall>z \<in> set ZOOM_CASCADE. escalates neverHits ?v z"
    using far far2 by (simp add: ZOOM_CASCADE_def escalates_def neverHits_def offer_def)
  have o2: "offered neverHits ZOOM_CASCADE
              = [\<lparr> cand_feature = ''coarse'', cand_geometry = Some (Polygon (unitSquare 50 0)) \<rparr>,
                 \<lparr> cand_feature = ''finer'', cand_geometry = Some (Polygon (unitSquare 40 0)) \<rparr>]"
    by (simp add: ZOOM_CASCADE_def offered_def neverHits_def offer_def)
  have h3: "\<forall>z \<in> set ZOOM_CASCADE. (\<lambda>zoom. Inr None :: error + string candidate option) z = Inr None
               \<or> (\<exists>c. (\<lambda>zoom. Inr None :: error + string candidate option) z = Inr (Some c) \<and> cand_geometry c = None)"
    by simp
  have stall: "secondZoomHits (ZOOM_CASCADE ! 2) = Inl GeometryError"
    by (simp add: ZOOM_CASCADE_def secondZoomHits_def)
  from zoom_cascade_outcome [of 1 secondZoomHits ?v ?c] h1
  have r1: "tryNextZoom secondZoomHits ?v 0 None = Validated ?c" by blast
  from zoom_cascade_outcome [of 0 neverHits ?v ?c] h2 o2
  have r2: "tryNextZoom neverHits ?v 0 None
       = BestAvailable \<lparr> cand_feature = ''finer'', cand_geometry = Some (Polygon (unitSquare 40 0)) \<rparr>"
    by simp
  from zoom_cascade_outcome [of 0 "\<lambda>zoom. Inr None :: error + string candidate option" ?v ?c] h3
  have r3: "tryNextZoom (\<lambda>zoom. Inr None) ?v 0 (None :: string candidate option) = NoBuildingFound"
    by blast
  from r1 r2 r3 stall show ?thesis by simp
qed

text \<open>
  Claim C7. The validation accepts a geometry exactly when the reference point is in
  it by the direct test, or the direct test says no and the point is in the geometry
  buffered by the fixed 10 metres. An exception of any check that is run makes the
  validation answer false.
\<close>

theorem validation_direct_or_buffered:
  "POINT_BUFFER_M = 10
   \<and> isPointInsideResult T clickPt geom
       = (\<exists>g. geom = Some g
            \<and> (turf_booleanPointInPolygon T clickPt g = Inr True
               \<or> (turf_booleanPointInPolygon T clickPt g = Inr False
                  \<and> (\<exists>buffered. turf_buffer T g POINT_BUFFER_M = Inr (Some buffered)
                        \<and> turf_booleanPointInPolygon T clickPt buffered = Inr True))))
   \<and> (\<forall>g e. geom = Some g \<and> turf_booleanPointInPolygon T clickPt g = Inl e
          \<longrightarrow> \<not> isPointInsideResult T clickPt geom)
   \<and> (\<forall>g e. geom = Some g \<and> turf_booleanPointInPolygon T clickPt g = Inr False
            \<and> turf_buffer T g POINT_BUFFER_M = Inl e
          \<longrightarrow> \<not> isPointInsideResult T clickPt geom)
   \<and> (\<forall>g buffered e. geom = Some g \<and> turf_booleanPointInPolygon T clickPt g = Inr False
            \<and> turf_buffer T g POINT_BUFFER_M = Inr (Some buffered)
            \<and> turf_booleanPointInPolygon T clickPt buffered = Inl e
          \<longrightarrow> \<not> isPointInsideResult T clickPt geom)"
  by (auto simp: isPointInsideResult_def POINT_BUFFER_M_def split: option.splits sum.splits)


theorem validation_direct_or_buffered_witness:
  "isPointInsideResult boxTurf (1 / 2, 1 / 2) (Some (Polygon (unitSquare 0 0)))
   \<and> turf_booleanPointInPolygon boxTurf (15 / 2, 1 / 2) (Polygon (unitSquare 0 0)) = Inr False
   \<and> isPointInsideResult boxTurf (15 / 2, 1 / 2) (Some (Polygon (unitSquare 0 0)))
   \<and> \<not> isPointInsideResult boxTurf (50, 1 / 2) (Some (Polygon (unitSquare 0 0)))
   \<and> turf_booleanPointInPolygon boxTurf (0, 0) OtherGeometry = Inl GeometryError
   \<and> \<not> isPointInsideResult boxTurf (0, 0) (Some OtherGeometry)"
proof -
  let ?sq = "Polygon (unitSquare 0 0)"
  have d1: "turf_booleanPointInPolygon boxTurf (1 / 2, 1 / 2) ?sq = Inr True" by code_simp
  have d2: "turf_booleanPointInPolygon boxTurf (15 / 2, 1 / 2) ?sq = Inr False" by code_simp
  have b2: "turf_buffer boxTurf ?sq POINT_BUFFER_M = Inr (Some (Polygon [boxRing (-10, -10, 11, 11)]))"
    by code_simp
  have i2: "turf_booleanPointInPolygon boxTurf (15 / 2, 1 / 2) (Polygon [boxRing (-10, -10, 11, 11)]) = Inr True"
    by code_simp
  have d3: "turf_booleanPointInPolygon boxTurf (50, 1 / 2) ?sq = Inr False" by code_simp
  have i3: "turf_booleanPointInPolygon boxTurf (50, 1 / 2) (Polygon [boxRing (-10, -10, 11, 11)]) = Inr False"
    by code_simp
  have d4: "turf_booleanPointInPolygon boxTurf (0, 0) OtherGeometry = Inl GeometryError" by code_simp
  from validation_direct_or_buffered [of boxTurf "(1 / 2, 1 / 2)" "Some ?sq"] d1
  have r1: "isPointInsideResult boxTurf (1 / 2, 1 / 2) (Some ?sq)" by simp
  from validation_direct_or_buffered [of boxTurf "(15 / 2, 1 / 2)" "Some ?sq"] d2 b2 i2
  have r2: "isPointInsideResult boxTurf (15 / 2, 1 / 2) (Some ?sq)" by simp
  from validation_direct_or_buffered [of boxTurf "(50, 1 / 2)" "Some ?sq"] d3 b2 i3
  have r3: "\<not> isPointInsideResult boxTurf (50, 1 / 2) (Some ?sq)" by simp
  from validation_direct_or_buffered [of boxTurf "(0, 0)" "Some OtherGeometry"] d4
  have r4: "\<not> isPointInsideResult boxTurf (0, 0) (Some OtherGeometry)" by simp
  from r1 r2 r3 r4 d2 d4 show ?thesis by simp
qed


lemma requery_prevDiagonal: "prevDiagonal (requery T answer lngLat opts st) = prevDiagonal st"
  by (simp add: requery_def split: sum.split option.split)













section \<open>Properties of the seed selection\<close>

lemma containmentStep_argStep:
  "containmentStep T clickPt turfPolys = argStep (areaIfContaining T clickPt turfPolys)"
  by (rule ext, rule ext)
     (simp add: containmentStep_def argStep_def areaIfContaining_def
           split: option.split sum.split)

lemma nearestStep_argStep:
  "(case nearestStep T clickPt turfPolys i st of (m, k, a) \<Rightarrow> (k, m))
     = argStep (centroidDistance T clickPt turfPolys) i (case st of (m, k, a) \<Rightarrow> (k, m))"
  by (cases st)
     (simp add: nearestStep_def argStep_def centroidDistance_def
           split: option.split sum.split)

lemma nearest_fold_argStep:
  "(case fold (nearestStep T clickPt turfPolys) is st of (m, k, a) \<Rightarrow> (k, m))
     = fold (argStep (centroidDistance T clickPt turfPolys)) is (case st of (m, k, a) \<Rightarrow> (k, m))"
  by (induction "is" arbitrary: st) (simp_all add: nearestStep_argStep)

lemma firstLeast_iff:
  "firstLeast f n k a
     \<longleftrightarrow> k < n \<and> f k = Some a \<and> (\<forall>j < n. \<forall>b. f j = Some b \<longrightarrow> a \<le> b \<and> (j < k \<longrightarrow> a < b))"
proof -
  have "list_all (\<lambda>j. case f j of None \<Rightarrow> True | Some b \<Rightarrow> a \<le> b \<and> (j < k \<longrightarrow> a < b)) [0..<n]
          \<longleftrightarrow> (\<forall>j < n. \<forall>b. f j = Some b \<longrightarrow> a \<le> b \<and> (j < k \<longrightarrow> a < b))"
    by (auto simp: list_all_iff split: option.splits)
  then show ?thesis by (simp add: firstLeast_def)
qed

lemma noneBelow_iff: "noneBelow P n \<longleftrightarrow> (\<forall>j < n. \<not> P j)"
  by (auto simp: noneBelow_def list_all_iff)

lemma firstLeast_unique:
  assumes "firstLeast f n k a" "firstLeast f n k' a'"
  shows "k = k' \<and> a = a'"
proof -
  from assms have k: "k < n" "f k = Some a" and k': "k' < n" "f k' = Some a'"
    and m: "\<forall>j < n. \<forall>b. f j = Some b \<longrightarrow> a \<le> b \<and> (j < k \<longrightarrow> a < b)"
    and m': "\<forall>j < n. \<forall>b. f j = Some b \<longrightarrow> a' \<le> b \<and> (j < k' \<longrightarrow> a' < b)"
    by (simp_all add: firstLeast_iff)
  from m k' m' k have eq: "a = a'" by (meson order_antisym)
  have "k = k'"
  proof (rule ccontr)
    assume "k \<noteq> k'"
    then consider "k < k'" | "k' < k" by linarith
    then show False
    proof cases
      case 1
      with m' k eq show False by auto
    next
      case 2
      with m k' eq show False by auto
    qed
  qed
  with eq show ?thesis by simp
qed

lemma argStep_fold:
  "(if \<forall>j < n. f j = None
    then fold (argStep f) [0..<n] (None, PosInfinity) = (None, PosInfinity)
    else \<exists>k a. fold (argStep f) [0..<n] (None, PosInfinity) = (Some k, Fin a) \<and> firstLeast f n k a)"
proof (induction n)
  case 0
  then show ?case by simp
next
  case (Suc n)
  let ?r = "fold (argStep f) [0..<n] (None, PosInfinity)"
  have step: "fold (argStep f) [0..<Suc n] (None, PosInfinity) = argStep f n ?r" by simp
  show ?case
  proof (cases "\<forall>j < n. f j = None")
    case True
    with Suc have r: "?r = (None, PosInfinity)" by simp
    show ?thesis
    proof (cases "f n")
      case None
      with True have "\<forall>j < Suc n. f j = None" by (simp add: less_Suc_eq)
      moreover from None r have "argStep f n ?r = (None, PosInfinity)" by (simp add: argStep_def)
      ultimately show ?thesis using step by simp
    next
      case (Some a)
      then have ne: "\<not> (\<forall>j < Suc n. f j = None)" by auto
      from Some r have v: "argStep f n ?r = (Some n, Fin a)" by (simp add: argStep_def)
      from Some True have "firstLeast f (Suc n) n a"
        by (auto simp: firstLeast_iff less_Suc_eq)
      with ne v step show ?thesis by auto
    qed
  next
    case False
    with Suc obtain k a where r: "?r = (Some k, Fin a)" and fl: "firstLeast f n k a" by auto
    from False have ne: "\<not> (\<forall>j < Suc n. f j = None)" by (auto simp: less_Suc_eq)
    from fl have k: "k < n" "f k = Some a"
      and m: "\<forall>j < n. \<forall>b. f j = Some b \<longrightarrow> a \<le> b \<and> (j < k \<longrightarrow> a < b)"
      by (simp_all add: firstLeast_iff)
    show ?thesis
    proof (cases "f n")
      case None
      with r have v: "argStep f n ?r = (Some k, Fin a)" by (simp add: argStep_def)
      from None k m have "firstLeast f (Suc n) k a"
        by (auto simp: firstLeast_iff less_Suc_eq)
      with ne v step show ?thesis by auto
    next
      case (Some b)
      show ?thesis
      proof (cases "b < a")
        case True
        with Some r have v: "argStep f n ?r = (Some n, Fin b)" by (simp add: argStep_def)
        from True Some m have "firstLeast f (Suc n) n b"
          by (fastforce simp: firstLeast_iff less_Suc_eq)
        with ne v step show ?thesis by auto
      next
        case False
        with Some r have v: "argStep f n ?r = (Some k, Fin a)" by (simp add: argStep_def)
        from False Some k m have "firstLeast f (Suc n) k a"
          by (auto simp: firstLeast_iff less_Suc_eq)
        with ne v step show ?thesis by auto
      qed
    qed
  qed
qed

lemma seedByContainment_found:
  "firstLeast (areaIfContaining T clickPt turfPolys) n k a \<Longrightarrow>
   seedByContainment T clickPt turfPolys n = (Some k, Fin a)"
proof -
  assume fl: "firstLeast (areaIfContaining T clickPt turfPolys) n k a"
  let ?f = "areaIfContaining T clickPt turfPolys"
  from fl have "\<not> (\<forall>j < n. ?f j = None)" by (auto simp: firstLeast_iff)
  with argStep_fold [of n ?f] obtain k' a'
    where r: "fold (argStep ?f) [0..<n] (None, PosInfinity) = (Some k', Fin a')"
      and fl': "firstLeast ?f n k' a'" by auto
  from firstLeast_unique [OF fl fl'] r show ?thesis
    by (simp add: seedByContainment_def containmentStep_argStep)
qed

lemma seedByContainment_none:
  "noneBelow (\<lambda>j. areaIfContaining T clickPt turfPolys j \<noteq> None) n \<Longrightarrow>
   seedByContainment T clickPt turfPolys n = (None, PosInfinity)"
  using argStep_fold [of n "areaIfContaining T clickPt turfPolys"]
  by (simp add: seedByContainment_def containmentStep_argStep noneBelow_iff)

lemma seedByNearestCentroid_found:
  "firstLeast (centroidDistance T clickPt turfPolys) n k d \<Longrightarrow>
   \<exists>sa. seedByNearestCentroid T clickPt turfPolys n (None, PosInfinity) = (Some k, sa)"
proof -
  assume fl: "firstLeast (centroidDistance T clickPt turfPolys) n k d"
  let ?f = "centroidDistance T clickPt turfPolys"
  let ?r = "fold (nearestStep T clickPt turfPolys) [0..<n] (PosInfinity, None, PosInfinity)"
  from fl have "\<not> (\<forall>j < n. ?f j = None)" by (auto simp: firstLeast_iff)
  with argStep_fold [of n ?f] obtain k' a'
    where r: "fold (argStep ?f) [0..<n] (None, PosInfinity) = (Some k', Fin a')"
      and fl': "firstLeast ?f n k' a'" by auto
  from firstLeast_unique [OF fl fl'] have "k' = k" by simp
  with r nearest_fold_argStep [of T clickPt turfPolys "[0..<n]" "(PosInfinity, None, PosInfinity)"]
  have "(case ?r of (m, k, a) \<Rightarrow> (k, m)) = (Some k, Fin a')" by simp
  then show ?thesis
    by (cases ?r) (auto simp: seedByNearestCentroid_def)
qed

lemma seedByNearestCentroid_none:
  "noneBelow (\<lambda>j. centroidDistance T clickPt turfPolys j \<noteq> None) n \<Longrightarrow>
   seedByNearestCentroid T clickPt turfPolys n (None, PosInfinity) = (None, PosInfinity)"
proof -
  assume nb: "noneBelow (\<lambda>j. centroidDistance T clickPt turfPolys j \<noteq> None) n"
  let ?f = "centroidDistance T clickPt turfPolys"
  have inv: "fold (nearestStep T clickPt turfPolys) is (PosInfinity, None, PosInfinity)
               = (PosInfinity, None, PosInfinity)" if "\<forall>i \<in> set is. ?f i = None" for "is"
    using that
    by (induction "is")
       (auto simp: nearestStep_def centroidDistance_def split: option.splits sum.splits)
  from nb have "\<forall>i \<in> set [0..<n]. ?f i = None" by (simp add: noneBelow_iff)
  from inv [OF this] show ?thesis by (simp add: seedByNearestCentroid_def)
qed

lemma seedByRayCasting_hit:
  "k < length allCoords \<Longrightarrow> rayHit lngLat (allCoords ! k) \<Longrightarrow>
   noneBelow (\<lambda>j. rayHit lngLat (allCoords ! j)) k \<Longrightarrow>
   seedByRayCasting T lngLat allCoords turfPolys st
     = (case polyAt turfPolys k of
          None \<Rightarrow> Inr (Some k, Fin 0)
        | Some poly \<Rightarrow>
           (case turf_area T poly of Inl e \<Rightarrow> Inl e | Inr a \<Rightarrow> Inr (Some k, Fin a)))"
proof -
  assume a: "k < length allCoords" "rayHit lngLat (allCoords ! k)"
    "noneBelow (\<lambda>j. rayHit lngLat (allCoords ! j)) k"
  have "find (\<lambda>i. rayHit lngLat (allCoords ! i)) [0..<length allCoords] = Some k"
    using a by (auto simp: find_Some_iff noneBelow_iff intro!: exI [of _ k])
  then show ?thesis by (simp add: seedByRayCasting_def)
qed

lemma seedByRayCasting_miss:
  "noneBelow (\<lambda>j. rayHit lngLat (allCoords ! j)) (length allCoords) \<Longrightarrow>
   seedByRayCasting T lngLat allCoords turfPolys st = Inr st"
proof -
  assume "noneBelow (\<lambda>j. rayHit lngLat (allCoords ! j)) (length allCoords)"
  then have "find (\<lambda>i. rayHit lngLat (allCoords ! i)) [0..<length allCoords] = None"
    by (auto simp: find_None_iff noneBelow_iff)
  then show ?thesis by (simp add: seedByRayCasting_def)
qed

text \<open>
  The three loops of the seed selection, read on indices: a fragment is an index of
  \<open>allCoords\<close>, its Turf polygon the entry of \<open>turfPolys\<close> at that index. (a) When
  some fragment passes the rigorous containment test and has an area, the seed is the
  first fragment of least area among them. (b) When none does and ray casting on the raw outer ring hits, the
  seed is the first fragment it hits (with area 0 when it has no Turf polygon; the
  area of a hit that has one is read outside any \<^verbatim>\<open>try\<close>, so its exception leaves the
  function). (c) When neither applies, the seed is the first fragment whose centroid
  is nearest to the reference point. When no fragment has a centroid distance either,
  no seed is chosen and the first raw feature is returned unchanged.
\<close>

lemma seed_selection_precedence:
  "(\<forall>k a. firstLeast (areaIfContaining T lngLat turfPolys) (length allCoords) k a
      \<longrightarrow> selectSeed T lngLat allCoords turfPolys = Inr (Some k, Fin a))
   \<and> (\<forall>k. noneBelow (\<lambda>j. areaIfContaining T lngLat turfPolys j \<noteq> None) (length allCoords)
         \<and> k < length allCoords \<and> rayHit lngLat (allCoords ! k)
         \<and> noneBelow (\<lambda>j. rayHit lngLat (allCoords ! j)) k
      \<longrightarrow> selectSeed T lngLat allCoords turfPolys
            = (case polyAt turfPolys k of
                 None \<Rightarrow> Inr (Some k, Fin 0)
               | Some poly \<Rightarrow>
                  (case turf_area T poly of Inl e \<Rightarrow> Inl e | Inr a \<Rightarrow> Inr (Some k, Fin a))))
   \<and> (\<forall>k d. noneBelow (\<lambda>j. areaIfContaining T lngLat turfPolys j \<noteq> None) (length allCoords)
         \<and> noneBelow (\<lambda>j. rayHit lngLat (allCoords ! j)) (length allCoords)
         \<and> firstLeast (centroidDistance T lngLat turfPolys) (length allCoords) k d
      \<longrightarrow> (\<exists>seedArea. selectSeed T lngLat allCoords turfPolys = Inr (Some k, seedArea)))
   \<and> (noneBelow (\<lambda>j. areaIfContaining T lngLat turfPolys j \<noteq> None) (length allCoords)
         \<and> noneBelow (\<lambda>j. rayHit lngLat (allCoords ! j)) (length allCoords)
         \<and> noneBelow (\<lambda>j. centroidDistance T lngLat turfPolys j \<noteq> None) (length allCoords)
      \<longrightarrow> selectSeed T lngLat allCoords turfPolys = Inr (None, PosInfinity))
   \<and> (\<forall>features seedArea. features \<noteq> []
         \<and> extractPolygonCoords T features = (allCoords, turfPolys)
         \<and> 2 \<le> length allCoords
         \<and> selectSeed T lngLat allCoords turfPolys = Inr (None, seedArea)
      \<longrightarrow> pickOrMergeSourceFeatures T features lngLat opts = Inr (Some (features ! 0)))"
proof (intro conjI allI impI)
  fix k a
  assume "firstLeast (areaIfContaining T lngLat turfPolys) (length allCoords) k a"
  from seedByContainment_found [OF this]
  show "selectSeed T lngLat allCoords turfPolys = Inr (Some k, Fin a)"
    by (simp add: selectSeed_def)
next
  fix k
  assume a: "noneBelow (\<lambda>j. areaIfContaining T lngLat turfPolys j \<noteq> None) (length allCoords)
         \<and> k < length allCoords \<and> rayHit lngLat (allCoords ! k)
         \<and> noneBelow (\<lambda>j. rayHit lngLat (allCoords ! j)) k"
  then have s1: "seedByContainment T lngLat turfPolys (length allCoords) = (None, PosInfinity)"
    by (intro seedByContainment_none) simp
  from a have s2: "seedByRayCasting T lngLat allCoords turfPolys (None, PosInfinity)
     = (case polyAt turfPolys k of
          None \<Rightarrow> Inr (Some k, Fin 0)
        | Some poly \<Rightarrow>
           (case turf_area T poly of Inl e \<Rightarrow> Inl e | Inr a \<Rightarrow> Inr (Some k, Fin a)))"
    by (intro seedByRayCasting_hit) simp_all
  from s1 s2
  show "selectSeed T lngLat allCoords turfPolys
            = (case polyAt turfPolys k of
                 None \<Rightarrow> Inr (Some k, Fin 0)
               | Some poly \<Rightarrow>
                  (case turf_area T poly of Inl e \<Rightarrow> Inl e | Inr a \<Rightarrow> Inr (Some k, Fin a)))"
    by (simp add: selectSeed_def split: option.splits sum.splits)
next
  fix k d
  assume a: "noneBelow (\<lambda>j. areaIfContaining T lngLat turfPolys j \<noteq> None) (length allCoords)
         \<and> noneBelow (\<lambda>j. rayHit lngLat (allCoords ! j)) (length allCoords)
         \<and> firstLeast (centroidDistance T lngLat turfPolys) (length allCoords) k d"
  then have s1: "seedByContainment T lngLat turfPolys (length allCoords) = (None, PosInfinity)"
    by (intro seedByContainment_none) simp
  from a have s2: "seedByRayCasting T lngLat allCoords turfPolys (None, PosInfinity) = Inr (None, PosInfinity)"
    by (intro seedByRayCasting_miss) simp
  from a obtain sa where
    "seedByNearestCentroid T lngLat turfPolys (length allCoords) (None, PosInfinity) = (Some k, sa)"
    using seedByNearestCentroid_found by blast
  with s1 s2 show "\<exists>seedArea. selectSeed T lngLat allCoords turfPolys = Inr (Some k, seedArea)"
    by (simp add: selectSeed_def)
next
  assume a: "noneBelow (\<lambda>j. areaIfContaining T lngLat turfPolys j \<noteq> None) (length allCoords)
         \<and> noneBelow (\<lambda>j. rayHit lngLat (allCoords ! j)) (length allCoords)
         \<and> noneBelow (\<lambda>j. centroidDistance T lngLat turfPolys j \<noteq> None) (length allCoords)"
  then have s1: "seedByContainment T lngLat turfPolys (length allCoords) = (None, PosInfinity)"
    by (intro seedByContainment_none) simp
  from a have s2: "seedByRayCasting T lngLat allCoords turfPolys (None, PosInfinity) = Inr (None, PosInfinity)"
    by (intro seedByRayCasting_miss) simp
  from a have s3: "seedByNearestCentroid T lngLat turfPolys (length allCoords) (None, PosInfinity)
                     = (None, PosInfinity)"
    by (intro seedByNearestCentroid_none) simp
  from s1 s2 s3 show "selectSeed T lngLat allCoords turfPolys = Inr (None, PosInfinity)"
    by (simp add: selectSeed_def)
next
  fix features :: "('a, 'b) feature_scheme list" and seedArea
  assume "features \<noteq> []
         \<and> extractPolygonCoords T features = (allCoords, turfPolys)
         \<and> 2 \<le> length allCoords
         \<and> selectSeed T lngLat allCoords turfPolys = Inr (None, seedArea)"
  then show "pickOrMergeSourceFeatures T features lngLat opts = Inr (Some (features ! 0))"
    by (simp add: pickOrMergeSourceFeatures_def Let_def)
qed


lemma seed_selection_precedence_examples:
  "selectSeed boxTurf (1 / 2, 1 / 2) [[boxRing (0, 0, 4, 4)], unitSquare 0 0]
      (map (polygonOrNull boxTurf) [[boxRing (0, 0, 4, 4)], unitSquare 0 0]) = Inr (Some 1, Fin 1)
   \<and> areaIfContaining boxTurf (1 / 2, 1 / 2)
        (map (polygonOrNull boxTurf) [[boxRing (0, 0, 4, 4)], unitSquare 0 0]) 0 = Some 16
   \<and> selectSeed boxTurf (1, 1) [unitSquare 9 9, openSquare 0 0, openSquare 0 0]
        [Some (Polygon (unitSquare 9 9)), None] = Inr (Some 1, Fin 0)
   \<and> (\<exists>seedArea. selectSeed boxTurf (1 / 2, 1 / 2) [unitSquare 9 9, unitSquare 3 0]
        (map (polygonOrNull boxTurf) [unitSquare 9 9, unitSquare 3 0]) = Inr (Some 1, seedArea))
   \<and> selectSeed boxTurf (0, 0) [openSquare 10 10, openSquare 10 10, openSquare 20 20, openSquare 20 20]
        [None, None] = Inr (None, PosInfinity)
   \<and> pickOrMergeSourceFeatures boxTurf
        [named (Some (MultiPolygon [openSquare 10 10, openSquare 20 20])) ''raw''] (0, 0) noOptions
       = Inr (Some (named (Some (MultiPolygon [openSquare 10 10, openSquare 20 20])) ''raw''))"
proof -
  let ?nested = "[[boxRing (0, 0, 4, 4)], unitSquare 0 0]"
  let ?open = "[unitSquare 9 9, openSquare 0 0, openSquare 0 0]"
  let ?openPolys = "[Some (Polygon (unitSquare 9 9)), None]"
  let ?far = "[unitSquare 9 9, unitSquare 3 0]"
  let ?bad = "[openSquare 10 10, openSquare 10 10, openSquare 20 20, openSquare 20 20]"
  let ?badPolys = "[None, None] :: geometry option list"
  let ?raw = "[named (Some (MultiPolygon [openSquare 10 10, openSquare 20 20])) ''raw'']"
  have a: "firstLeast (areaIfContaining boxTurf (1 / 2, 1 / 2) (map (polygonOrNull boxTurf) ?nested))
             (length ?nested) 1 1"
    by code_simp
  have a0: "areaIfContaining boxTurf (1 / 2, 1 / 2) (map (polygonOrNull boxTurf) ?nested) 0 = Some 16"
    by code_simp
  have b: "noneBelow (\<lambda>j. areaIfContaining boxTurf (1, 1) ?openPolys j \<noteq> None)
             (length ?open)
           \<and> 1 < length ?open \<and> rayHit (1, 1) (?open ! 1)
           \<and> noneBelow (\<lambda>j. rayHit (1, 1) (?open ! j)) 1"
    by code_simp
  have b': "polyAt ?openPolys 1 = None" by code_simp
  have c: "noneBelow (\<lambda>j. areaIfContaining boxTurf (1 / 2, 1 / 2) (map (polygonOrNull boxTurf) ?far) j \<noteq> None)
             (length ?far)
           \<and> noneBelow (\<lambda>j. rayHit (1 / 2, 1 / 2) (?far ! j)) (length ?far)
           \<and> firstLeast (centroidDistance boxTurf (1 / 2, 1 / 2) (map (polygonOrNull boxTurf) ?far))
               (length ?far) 1 3"
    by code_simp
  have d: "noneBelow (\<lambda>j. areaIfContaining boxTurf (0, 0) ?badPolys j \<noteq> None)
             (length ?bad)
           \<and> noneBelow (\<lambda>j. rayHit (0, 0) (?bad ! j)) (length ?bad)
           \<and> noneBelow (\<lambda>j. centroidDistance boxTurf (0, 0) ?badPolys j \<noteq> None)
               (length ?bad)"
    by code_simp
  have e: "?raw \<noteq> [] \<and> extractPolygonCoords boxTurf ?raw = (?bad, ?badPolys)
           \<and> 2 \<le> length ?bad"
    by code_simp
  from seed_selection_precedence [of boxTurf "(1 / 2, 1 / 2)" "map (polygonOrNull boxTurf) ?nested" ?nested] a
  have ra: "selectSeed boxTurf (1 / 2, 1 / 2) ?nested (map (polygonOrNull boxTurf) ?nested)
              = Inr (Some 1, Fin 1)"
    by blast
  from seed_selection_precedence [of boxTurf "(1, 1)" ?openPolys ?open] b
  have "selectSeed boxTurf (1, 1) ?open ?openPolys
          = (case polyAt ?openPolys 1 of
               None \<Rightarrow> Inr (Some 1, Fin 0)
             | Some poly \<Rightarrow>
                (case turf_area boxTurf poly of Inl e \<Rightarrow> Inl e | Inr a \<Rightarrow> Inr (Some 1, Fin a)))"
    by blast
  with b' have rb: "selectSeed boxTurf (1, 1) ?open ?openPolys
          = Inr (Some 1, Fin 0)"
    by simp
  from seed_selection_precedence [of boxTurf "(1 / 2, 1 / 2)" "map (polygonOrNull boxTurf) ?far" ?far] c
  have rc: "\<exists>seedArea. selectSeed boxTurf (1 / 2, 1 / 2) ?far (map (polygonOrNull boxTurf) ?far)
              = Inr (Some 1, seedArea)"
    by blast
  note t = seed_selection_precedence [of boxTurf "(0, 0)" ?badPolys ?bad noOptions]
  from t d
  have rd: "selectSeed boxTurf (0, 0) ?bad ?badPolys = Inr (None, PosInfinity)"
    by blast
  from t e rd
  have re: "pickOrMergeSourceFeatures boxTurf ?raw (0, 0) noOptions = Inr (Some (?raw ! 0))"
    by blast
  from ra a0 rb rc rd re show ?thesis by simp
qed

text \<open>
  Claim C4. The index that the selection finds is used for both arrays. After a polygon
  that \<^verbatim>\<open>turf.polygon\<close> refuses the arrays are out of step: here the click point lies
  in a large and in a small square, loop (a) selects index 2, in \<open>turfPolys\<close> the
  small square of least area, and the seed that the merge returns is index 2 of
  \<open>allCoords\<close>, the large square. And step (b) reads the area of its hit outside any
  \<^verbatim>\<open>try\<close>: with an area that throws, ray casting hits the first square and the
  exception leaves the function, where the loops (a) and (c) skip the fragment.
\<close>

theorem selected_seed_is_not_the_returned_polygon:
  "extractPolygonCoords boxTurf
      [named (Some (Polygon (openSquare 10 10))) ''open'',
       named (Some (Polygon [boxRing (0, 0, 4, 4)])) ''large'',
       named (Some (Polygon (unitSquare 0 0))) ''small'']
     = ([openSquare 10 10, openSquare 10 10, [boxRing (0, 0, 4, 4)], unitSquare 0 0],
        [None, Some (Polygon [boxRing (0, 0, 4, 4)]), Some (Polygon (unitSquare 0 0))])
   \<and> selectSeed boxTurf (1 / 2, 1 / 2)
        [openSquare 10 10, openSquare 10 10, [boxRing (0, 0, 4, 4)], unitSquare 0 0]
        [None, Some (Polygon [boxRing (0, 0, 4, 4)]), Some (Polygon (unitSquare 0 0))]
       = Inr (Some 2, Fin 1)
   \<and> pickOrMergeSourceFeatures boxTurf
        [named (Some (Polygon (openSquare 10 10))) ''open'',
         named (Some (Polygon [boxRing (0, 0, 4, 4)])) ''large'',
         named (Some (Polygon (unitSquare 0 0))) ''small'']
        (1 / 2, 1 / 2) noOptions
       = Inr (Some (named (Some (Polygon [boxRing (0, 0, 4, 4)])) ''open''))
   \<and> pickOrMergeSourceFeatures areaLessTurf
        [named (Some (Polygon (unitSquare 0 0))) ''first'',
         named (Some (Polygon (unitSquare 5 0))) ''second'']
        (1 / 2, 1 / 2) noOptions
       = Inl GeometryError"
  by code_simp

section \<open>Properties of the guarded expansion\<close>

lemma expandStep_admit:
  "expandStep T E i st \<noteq> st \<Longrightarrow>
     i \<notin> set (cluster st)
     \<and> (\<exists>p. polyAt (env_turfPolys E) i = Some p \<and> touchesCluster T E p (cluster st))
     \<and> distanceGuard T E i = Inr False
     \<and> \<not> areaGuard E (clusterArea st) (env_areas E ! i)
     \<and> expandStep T E i st
          = st\<lparr> cluster := cluster st @ [i],
                clusterArea := clusterArea st + env_areas E ! i,
                changed := True \<rparr>"
  by (auto simp: expandStep_def Let_def split: option.splits sum.splits if_splits)

lemma expandStep_skip:
  "expandStep T E i st = st \<Longrightarrow> i \<notin> set (cluster st) \<Longrightarrow>
   polyAt (env_turfPolys E) i = Some p \<Longrightarrow> distanceGuard T E i = Inr False \<Longrightarrow>
   \<not> areaGuard E (clusterArea st) (env_areas E ! i) \<Longrightarrow>
   \<not> touchesCluster T E p (cluster st)"
proof
  assume a: "expandStep T E i st = st" "i \<notin> set (cluster st)" "polyAt (env_turfPolys E) i = Some p"
    "distanceGuard T E i = Inr False" "\<not> areaGuard E (clusterArea st) (env_areas E ! i)"
    "touchesCluster T E p (cluster st)"
  then have "expandStep T E i st = st\<lparr> cluster := cluster st @ [i],
                clusterArea := clusterArea st + env_areas E ! i, changed := True \<rparr>"
    by (simp add: expandStep_def Let_def)
  with a(1) have "cluster st = cluster st @ [i]"
    by (metis clusterState.select_convs(1) clusterState.surjective clusterState.update_convs(1,2,3))
  then show False by simp
qed

lemma expandStep_changed: "changed st \<Longrightarrow> changed (expandStep T E i st)"
  using expandStep_cases [of T E i st] by auto

lemma expandStep_changed_if_moved: "expandStep T E i st \<noteq> st \<Longrightarrow> changed (expandStep T E i st)"
  using expandStep_cases [of T E i st] by auto

lemma fold_expandStep_changed: "changed st \<Longrightarrow> changed (fold (expandStep T E) is st)"
  by (induction "is" arbitrary: st) (simp_all add: expandStep_changed)

lemma fold_expandStep_quiet:
  "\<not> changed (fold (expandStep T E) is st) \<Longrightarrow>
   fold (expandStep T E) is st = st \<and> (\<forall>i \<in> set is. expandStep T E i st = st)"
proof (induction "is" arbitrary: st)
  case Nil
  then show ?case by simp
next
  case (Cons i "is")
  have same: "expandStep T E i st = st"
  proof (rule ccontr)
    assume "expandStep T E i st \<noteq> st"
    then have "changed (expandStep T E i st)" by (rule expandStep_changed_if_moved)
    then have "changed (fold (expandStep T E) is (expandStep T E i st))"
      by (rule fold_expandStep_changed)
    with Cons.prems show False by simp
  qed
  with Cons show ?case by simp
qed

lemma expandPass_quiet:
  "\<not> changed (expandPass T E n st) \<Longrightarrow>
   expandPass T E n st = st\<lparr> changed := False \<rparr>
   \<and> (\<forall>i < n. expandStep T E i (st\<lparr> changed := False \<rparr>) = st\<lparr> changed := False \<rparr>)"
  using fold_expandStep_quiet [of T E "[0..<n]" "st\<lparr> changed := False \<rparr>"]
  by (simp add: expandPass_def)

lemma expand_fixed_point:
  "\<not> changed (expand T E n st)
   \<and> expandPass T E n (expand T E n st) = expand T E n st
   \<and> (\<forall>i < n. expandStep T E i (expand T E n st) = expand T E n st)"
proof (induction T E n st rule: expand.induct)
  case (1 T E n st)
  let ?st' = "expandPass T E n st"
  show ?case
  proof (cases "changed ?st'")
    case True
    with 1 show ?thesis by (subst (1 2 3 4 5) expand.simps) (simp add: Let_def)
  next
    case False
    then have e: "expand T E n st = ?st'"
      by (subst expand.simps) (simp add: Let_def)
    from expandPass_quiet [OF False]
    have q: "?st' = st\<lparr> changed := False \<rparr>"
      and s: "\<forall>i < n. expandStep T E i (st\<lparr> changed := False \<rparr>) = st\<lparr> changed := False \<rparr>"
      by simp_all
    have "expandPass T E n ?st' = expandPass T E n st"
      by (subst q) (simp add: expandPass_def)
    with e False q s show ?thesis by simp
  qed
qed

lemma fold_expandStep_invariant:
  assumes "\<And>st i. I st \<Longrightarrow> i < n \<Longrightarrow> I (expandStep T E i st)"
  shows "I st \<Longrightarrow> set is \<subseteq> {0..<n} \<Longrightarrow> I (fold (expandStep T E) is st)"
  by (induction "is" arbitrary: st) (auto intro: assms)

lemma expand_invariant:
  assumes init: "I st"
    and step: "\<And>st i. I st \<Longrightarrow> i < n \<Longrightarrow> I (expandStep T E i st)"
    and flag: "\<And>st. I st \<Longrightarrow> I (st\<lparr> changed := False \<rparr>)"
  shows "I (expand T E n st)"
  using init
proof (induction "length (outsiders n st)" arbitrary: st rule: less_induct)
  case less
  let ?st' = "expandPass T E n st"
  have inv: "I ?st'"
    unfolding expandPass_def
    by (rule fold_expandStep_invariant [where n = n]) (auto intro: step flag less.prems)
  show ?case
  proof (cases "changed ?st'")
    case True
    then have "length (outsiders n ?st') < length (outsiders n st)"
      by (rule expandPass_decreases)
    from less.hyps [OF this inv] have "I (expand T E n ?st')" .
    moreover have "expand T E n st = expand T E n ?st'"
      using True by (subst expand.simps) (simp add: Let_def)
    ultimately show ?thesis by simp
  next
    case False
    then have "expand T E n st = ?st'"
      by (subst expand.simps) (simp add: Let_def)
    with inv show ?thesis by simp
  qed
qed

lemma containment_fold_area:
  assumes "set is \<subseteq> {0..<n}"
    and "fst st = None \<or> (\<exists>k a p. st = (Some k, Fin a) \<and> k < n \<and> polyAt turfPolys k = Some p
                                  \<and> turf_area T p = Inr a)"
  shows "fst (fold (containmentStep T clickPt turfPolys) is st) = None
         \<or> (\<exists>k a p. fold (containmentStep T clickPt turfPolys) is st = (Some k, Fin a) \<and> k < n
               \<and> polyAt turfPolys k = Some p \<and> turf_area T p = Inr a)"
  using assms
proof (induction "is" arbitrary: st)
  case Nil
  then show ?case by simp
next
  case (Cons i "is")
  from Cons.prems(1) have i: "i < n" and rest: "set is \<subseteq> {0..<n}" by auto
  have "fst (containmentStep T clickPt turfPolys i st) = None
        \<or> (\<exists>k a p. containmentStep T clickPt turfPolys i st = (Some k, Fin a) \<and> k < n
              \<and> polyAt turfPolys k = Some p \<and> turf_area T p = Inr a)"
    using Cons.prems(2) i
    by (auto simp: containmentStep_def split: option.splits sum.splits)
  from Cons.IH [OF rest this] show ?case by simp
qed

lemma nearest_fold_area:
  assumes "set is \<subseteq> {0..<n}"
    and "fst (snd st) = None
         \<or> (\<exists>k p. fst (snd st) = Some k \<and> k < n \<and> polyAt turfPolys k = Some p
                \<and> (\<forall>a. turf_area T p = Inr a \<longrightarrow> snd (snd st) = Fin a))"
  shows "fst (snd (fold (nearestStep T clickPt turfPolys) is st)) = None
         \<or> (\<exists>k p. fst (snd (fold (nearestStep T clickPt turfPolys) is st)) = Some k \<and> k < n
                \<and> polyAt turfPolys k = Some p
                \<and> (\<forall>a. turf_area T p = Inr a
                       \<longrightarrow> snd (snd (fold (nearestStep T clickPt turfPolys) is st)) = Fin a))"
  using assms
proof (induction "is" arbitrary: st)
  case Nil
  then show ?case by simp
next
  case (Cons i "is")
  from Cons.prems(1) have i: "i < n" and rest: "set is \<subseteq> {0..<n}" by auto
  let ?s = "nearestStep T clickPt turfPolys i st"
  have "fst (snd ?s) = None
        \<or> (\<exists>k p. fst (snd ?s) = Some k \<and> k < n \<and> polyAt turfPolys k = Some p
               \<and> (\<forall>a. turf_area T p = Inr a \<longrightarrow> snd (snd ?s) = Fin a))"
    using Cons.prems(2) i
    by (cases st) (auto simp: nearestStep_def split: option.splits sum.splits)
  from Cons.IH [OF rest this] show ?case by simp
qed

text \<open>
  The \<open>seedArea\<close> that comes with a selected seed is the area of its Turf polygon
  (0 without one) unless that area throws.
\<close>

lemma selectSeed_seed_area:
  assumes "selectSeed T lngLat allCoords turfPolys = Inr (Some k, seedArea)"
  shows "k < length allCoords
         \<and> (case polyAt turfPolys k of
               None \<Rightarrow> seedArea = Fin 0
             | Some p \<Rightarrow> (\<forall>a. turf_area T p = Inr a \<longrightarrow> seedArea = Fin a))"
proof -
  let ?n = "length allCoords"
  let ?s1 = "seedByContainment T lngLat turfPolys ?n"
  have c1: "fst ?s1 = None
         \<or> (\<exists>k a p. ?s1 = (Some k, Fin a) \<and> k < ?n \<and> polyAt turfPolys k = Some p
               \<and> turf_area T p = Inr a)"
    unfolding seedByContainment_def
    by (rule containment_fold_area) simp_all
  show ?thesis
  proof (cases "fst ?s1 = None")
    case False
    with assms have "?s1 = (Some k, seedArea)" by (simp add: selectSeed_def Let_def)
    with c1 show ?thesis by auto
  next
    case True
    show ?thesis
    proof (cases "find (\<lambda>i. rayHit lngLat (allCoords ! i)) [0..<?n]")
      case (Some i)
      then have i: "i < ?n" by (auto simp: find_Some_iff)
      from assms True Some have "k = i
          \<and> (case polyAt turfPolys i of
                None \<Rightarrow> seedArea = Fin 0
              | Some p \<Rightarrow> (\<forall>a. turf_area T p = Inr a \<longrightarrow> seedArea = Fin a))"
        by (auto simp: selectSeed_def Let_def seedByRayCasting_def
                split: option.splits sum.splits if_splits)
      with i show ?thesis by simp
    next
      case None
      then have r: "seedByRayCasting T lngLat allCoords turfPolys ?s1 = Inr ?s1"
        by (simp add: seedByRayCasting_def)
      let ?f = "fold (nearestStep T lngLat turfPolys) [0..<?n] (PosInfinity, ?s1)"
      from assms True r have f: "snd ?f = (Some k, seedArea)"
        by (simp add: selectSeed_def Let_def seedByNearestCentroid_def)
      have "fst (snd ?f) = None
         \<or> (\<exists>k p. fst (snd ?f) = Some k \<and> k < ?n \<and> polyAt turfPolys k = Some p
                \<and> (\<forall>a. turf_area T p = Inr a \<longrightarrow> snd (snd ?f) = Fin a))"
        by (rule nearest_fold_area) (use True in simp_all)
      with f show ?thesis by auto
    qed
  qed
qed

lemma prepareGuards_fields:
  assumes "prepareGuards T clickPt turfPolys n seedIndex seedArea areaMult maxDist = Inr E"
  shows "env_turfPolys E = turfPolys"
    and "env_areas E = map (\<lambda>i. areaOrZero T (polyAt turfPolys i)) [0..<n]"
    and "env_centroids E = map (\<lambda>i. centroidOrNull T (polyAt turfPolys i)) [0..<n]"
    and "env_maxDistanceKm E = maxDist"
    and "env_seedCentroid E
           = (case polyAt turfPolys seedIndex of
                None \<Rightarrow> clickPt
              | Some p \<Rightarrow> (case turf_centroid T p of Inr c \<Rightarrow> c | Inl _ \<Rightarrow> clickPt))"
    and "env_maxClusterArea E
           = jsnum_times (if notPositive seedArea then Fin (areaOrZero T (polyAt turfPolys seedIndex))
                          else seedArea) areaMult"
  using assms
  by (auto simp: prepareGuards_def Let_def areaOrZero_def split: option.splits sum.splits if_splits)

lemma areaGuard_Fin:
  "env_maxClusterArea E = Fin cap \<Longrightarrow> 0 < cap \<Longrightarrow>
   areaGuard E running candidateArea = (cap < running + candidateArea)"
  by (simp add: areaGuard_def)

lemma row_prepare:
  "prepareGuards boxTurf (1 / 2, 1 / 2) (map (polygonOrNull boxTurf) row) 5 2 (Fin 1) 3 10 = Inr (rowEnv 3 10)"
  "prepareGuards boxTurf (1 / 2, 1 / 2) (map (polygonOrNull boxTurf) row) 5 2 (Fin 1) 10 10 = Inr (rowEnv 10 10)"
  "prepareGuards boxTurf (1 / 2, 1 / 2) (map (polygonOrNull boxTurf) row) 5 2 (Fin 1) 3 1 = Inr (rowEnv 3 1)"
  "selectSeed boxTurf (1 / 2, 1 / 2) row (map (polygonOrNull boxTurf) row) = Inr (Some 2, Fin 1)"
  by code_simp+

lemma areaGuard_off:
  "\<not> (\<exists>cap. env_maxClusterArea E = Fin cap \<and> 0 < cap) \<Longrightarrow> \<not> areaGuard E running candidateArea"
  by (cases "env_maxClusterArea E") (auto simp: areaGuard_def)

lemma selected_seed_within_cap:
  assumes prep: "prepareGuards T clickPt turfPolys n seedIndex seedArea areaMult maxDist = Inr E"
    and cap: "env_maxClusterArea E = Fin cap" and pos: "0 < cap"
    and sel: "selectSeed T lngLat allCoords turfPolys = Inr (Some seedIndex, seedArea)"
    and n: "n = length allCoords" and mult: "1 \<le> areaMult"
  shows "env_areas E ! seedIndex \<le> cap"
proof -
  from selectSeed_seed_area [OF sel] n
  have k: "seedIndex < n"
    and a: "case polyAt turfPolys seedIndex of
              None \<Rightarrow> seedArea = Fin 0
            | Some p \<Rightarrow> (\<forall>a. turf_area T p = Inr a \<longrightarrow> seedArea = Fin a)"
    by simp_all
  from k have e: "env_areas E ! seedIndex = areaOrZero T (polyAt turfPolys seedIndex)"
    by (simp add: prepareGuards_fields(2) [OF prep])
  show ?thesis
  proof (cases "\<exists>p a. polyAt turfPolys seedIndex = Some p \<and> turf_area T p = Inr a")
    case False
    then have "areaOrZero T (polyAt turfPolys seedIndex) = 0"
      by (auto simp: areaOrZero_def split: option.splits sum.splits)
    with e pos show ?thesis by simp
  next
    case True
    then obtain p a where p: "polyAt turfPolys seedIndex = Some p" "turf_area T p = Inr a"
      by blast
    with a have sa: "seedArea = Fin a" by simp
    from p have z: "areaOrZero T (polyAt turfPolys seedIndex) = a" by (simp add: areaOrZero_def)
    from prepareGuards_fields(6) [OF prep] cap sa z have c: "cap = a * areaMult"
      by (simp split: if_splits)
    with pos mult have "0 < a" by (simp add: zero_less_mult_iff)
    with mult have "a * 1 \<le> a * areaMult" by (intro mult_left_mono) simp_all
    with c e z show ?thesis by simp
  qed
qed

text \<open>
  Claim C3, as amended. The cap is \<open>seedArea * areaMultiplier\<close>, with the seed's area
  read again when \<open>seedArea\<close> is zero or negative, and the running total is the sum of
  the members' areas. When the cap is a positive number, a candidate is admitted only
  if the running total plus its area stays within the cap; a cluster that admitted
  anybody is within the cap, and so is every cluster whose seed alone is within it:
  always so when the seed and its area are what the seed selection returned and
  \<open>areaMultiplier\<close> is at least 1. When the cap is not a positive number the area
  guard rejects nobody: a candidate that passes the distance guard and touches a
  member is admitted whatever its area.
\<close>

theorem area_guard_caps_admissions:
  assumes prep: "prepareGuards T clickPt turfPolys n seedIndex seedArea areaMult maxDist = Inr E"
  shows "env_maxClusterArea E
           = jsnum_times (if notPositive seedArea then Fin (areaOrZero T (polyAt turfPolys seedIndex))
                          else seedArea) areaMult
     \<and> clusterArea (growCluster T E n seedIndex)
         = sum_list (map (\<lambda>i. env_areas E ! i) (cluster (growCluster T E n seedIndex)))
     \<and> (\<forall>cap. env_maxClusterArea E = Fin cap \<and> 0 < cap \<longrightarrow>
          (\<forall>st i. expandStep T E i st \<noteq> st \<longrightarrow>
              clusterArea st + env_areas E ! i \<le> cap
              \<and> clusterArea (expandStep T E i st) = clusterArea st + env_areas E ! i)
          \<and> (cluster (growCluster T E n seedIndex) = [seedIndex]
              \<or> clusterArea (growCluster T E n seedIndex) \<le> cap)
          \<and> (env_areas E ! seedIndex \<le> cap \<longrightarrow> clusterArea (growCluster T E n seedIndex) \<le> cap)
          \<and> (\<forall>lngLat allCoords.
                selectSeed T lngLat allCoords turfPolys = Inr (Some seedIndex, seedArea)
                \<and> n = length allCoords \<and> 1 \<le> areaMult
                \<longrightarrow> clusterArea (growCluster T E n seedIndex) \<le> cap))
     \<and> (\<not> (\<exists>cap. env_maxClusterArea E = Fin cap \<and> 0 < cap) \<longrightarrow>
          (\<forall>running candidateArea. \<not> areaGuard E running candidateArea)
          \<and> (\<forall>st i p. i \<notin> set (cluster st) \<and> polyAt turfPolys i = Some p
                \<and> distanceGuard T E i = Inr False \<and> touchesCluster T E p (cluster st)
                \<longrightarrow> expandStep T E i st
                      = st\<lparr> cluster := cluster st @ [i],
                            clusterArea := clusterArea st + env_areas E ! i,
                            changed := True \<rparr>))"
proof -
  let ?init = "\<lparr> cluster = [seedIndex], clusterArea = env_areas E ! seedIndex, changed = True \<rparr>"
  let ?final = "growCluster T E n seedIndex"
  have total: "clusterArea ?final = sum_list (map (\<lambda>i. env_areas E ! i) (cluster ?final))"
    unfolding growCluster_def
  proof (rule expand_invariant [where I = "\<lambda>st. clusterArea st = sum_list (map (\<lambda>i. env_areas E ! i) (cluster st))"])
    show "clusterArea ?init = sum_list (map (\<lambda>i. env_areas E ! i) (cluster ?init))" by simp
  next
    fix st :: clusterState and i
    assume "clusterArea st = sum_list (map (\<lambda>i. env_areas E ! i) (cluster st))"
    then show "clusterArea (expandStep T E i st)
                 = sum_list (map (\<lambda>i. env_areas E ! i) (cluster (expandStep T E i st)))"
      using expandStep_cases [of T E i st] by auto
  qed simp
  have positive: "(\<forall>st i. expandStep T E i st \<noteq> st \<longrightarrow>
              clusterArea st + env_areas E ! i \<le> cap
              \<and> clusterArea (expandStep T E i st) = clusterArea st + env_areas E ! i)
          \<and> (cluster ?final = [seedIndex] \<or> clusterArea ?final \<le> cap)
          \<and> (env_areas E ! seedIndex \<le> cap \<longrightarrow> clusterArea ?final \<le> cap)
          \<and> (\<forall>lngLat allCoords.
                selectSeed T lngLat allCoords turfPolys = Inr (Some seedIndex, seedArea)
                \<and> n = length allCoords \<and> 1 \<le> areaMult
                \<longrightarrow> clusterArea ?final \<le> cap)"
    if cap: "env_maxClusterArea E = Fin cap" and pos: "0 < cap" for cap
  proof -
    have admit: "clusterArea st + env_areas E ! i \<le> cap
              \<and> clusterArea (expandStep T E i st) = clusterArea st + env_areas E ! i"
      if "expandStep T E i st \<noteq> st" for st i
    proof -
      from expandStep_admit [OF that]
      have g: "\<not> areaGuard E (clusterArea st) (env_areas E ! i)"
        and e: "expandStep T E i st
            = st\<lparr> cluster := cluster st @ [i], clusterArea := clusterArea st + env_areas E ! i,
                  changed := True \<rparr>"
        by simp_all
      from g have "clusterArea st + env_areas E ! i \<le> cap"
        by (simp add: areaGuard_Fin [OF cap pos])
      with e show ?thesis by simp
    qed
    have capped: "cluster ?final = [seedIndex] \<or> clusterArea ?final \<le> cap"
      unfolding growCluster_def
    proof (rule expand_invariant [where I = "\<lambda>st. cluster st = [seedIndex] \<or> clusterArea st \<le> cap"])
      show "cluster ?init = [seedIndex] \<or> clusterArea ?init \<le> cap" by simp
    next
      fix st :: clusterState and i
      assume "cluster st = [seedIndex] \<or> clusterArea st \<le> cap"
      then show "cluster (expandStep T E i st) = [seedIndex] \<or> clusterArea (expandStep T E i st) \<le> cap"
        using admit [of i st] by (cases "expandStep T E i st = st") auto
    qed simp
    have within: "clusterArea ?final \<le> cap" if "env_areas E ! seedIndex \<le> cap"
      unfolding growCluster_def
    proof (rule expand_invariant [where I = "\<lambda>st. clusterArea st \<le> cap"])
      show "clusterArea ?init \<le> cap" using that by simp
    next
      fix st :: clusterState and i
      assume "clusterArea st \<le> cap"
      then show "clusterArea (expandStep T E i st) \<le> cap"
        using admit [of i st] by (cases "expandStep T E i st = st") auto
    qed simp
    have selected: "clusterArea ?final \<le> cap"
      if "selectSeed T lngLat allCoords turfPolys = Inr (Some seedIndex, seedArea)"
        and "n = length allCoords" and "1 \<le> areaMult" for lngLat allCoords
      by (rule within) (rule selected_seed_within_cap [OF prep cap pos that])
    from admit capped within selected show ?thesis by blast
  qed
  have off: "(\<forall>running candidateArea. \<not> areaGuard E running candidateArea)
          \<and> (\<forall>st i p. i \<notin> set (cluster st) \<and> polyAt turfPolys i = Some p
                \<and> distanceGuard T E i = Inr False \<and> touchesCluster T E p (cluster st)
                \<longrightarrow> expandStep T E i st
                      = st\<lparr> cluster := cluster st @ [i],
                            clusterArea := clusterArea st + env_areas E ! i,
                            changed := True \<rparr>)"
    if none: "\<not> (\<exists>cap. env_maxClusterArea E = Fin cap \<and> 0 < cap)"
  proof -
    have g: "\<not> areaGuard E running candidateArea" for running candidateArea
      by (rule areaGuard_off [OF none])
    then show ?thesis
      by (simp add: expandStep_def Let_def prepareGuards_fields(1) [OF prep])
  qed
  from prepareGuards_fields(6) [OF prep] total positive off show ?thesis by blast
qed

theorem area_guard_caps_admissions_witness:
  "prepareGuards boxTurf (1 / 2, 1 / 2) (map (polygonOrNull boxTurf) row) 5 2 (Fin 1) 3 10 = Inr (rowEnv 3 10)
   \<and> selectSeed boxTurf (1 / 2, 1 / 2) row (map (polygonOrNull boxTurf) row) = Inr (Some 2, Fin 1)
   \<and> env_maxClusterArea (rowEnv 3 10) = Fin 3 \<and> (0::real) < 3 \<and> (1::real) \<le> 3
   \<and> cluster (growCluster boxTurf (rowEnv 3 10) 5 2) = [2, 1, 0]
   \<and> clusterArea (growCluster boxTurf (rowEnv 3 10) 5 2) = 3
   \<and> clusterArea (growCluster boxTurf (rowEnv 3 10) 5 2) \<le> 3
   \<and> touchesCluster boxTurf (rowEnv 3 10) (Polygon (unitSquare 3 0)) [2, 1, 0]
   \<and> prepareGuards boxTurf (1 / 2, 0) (map (polygonOrNull boxTurf) [sliver, unitSquare 0 0])
        2 0 (Fin 0) AREA_MULTIPLIER 2 = Inr sliverEnv
   \<and> \<not> (\<exists>cap. env_maxClusterArea sliverEnv = Fin cap \<and> 0 < cap)
   \<and> \<not> areaGuard sliverEnv 0 1
   \<and> expandStep boxTurf sliverEnv 1 \<lparr> cluster = [0], clusterArea = 0, changed = True \<rparr>
       = \<lparr> cluster = [0, 1], clusterArea = 1, changed = True \<rparr>"
proof -
  have p: "prepareGuards boxTurf (1 / 2, 1 / 2) (map (polygonOrNull boxTurf) row) 5 2 (Fin 1) 3 10
             = Inr (rowEnv 3 10)"
    by (rule row_prepare)
  have sel: "selectSeed boxTurf (1 / 2, 1 / 2) row (map (polygonOrNull boxTurf) row) = Inr (Some 2, Fin 1)
             \<and> 5 = length row \<and> (1::real) \<le> 3"
    using row_prepare(4) by code_simp
  have c:"env_maxClusterArea (rowEnv 3 10) = Fin 3 \<and> (0::real) < 3" by (simp add: rowEnv_def)
  have m: "cluster (growCluster boxTurf (rowEnv 3 10) 5 2) = [2, 1, 0]" by code_simp
  have t: "touchesCluster boxTurf (rowEnv 3 10) (Polygon (unitSquare 3 0)) [2, 1, 0]" by code_simp
  from area_guard_caps_admissions [OF p] c sel
  have le: "clusterArea (growCluster boxTurf (rowEnv 3 10) 5 2) \<le> 3"
    by blast
  from area_guard_caps_admissions [OF p] m
  have eq: "clusterArea (growCluster boxTurf (rowEnv 3 10) 5 2) = 3"
    by (simp add: rowEnv_def)
  have ps: "prepareGuards boxTurf (1 / 2, 0) (map (polygonOrNull boxTurf) [sliver, unitSquare 0 0])
        2 0 (Fin 0) AREA_MULTIPLIER 2 = Inr sliverEnv"
    by code_simp
  have none: "\<not> (\<exists>cap. env_maxClusterArea sliverEnv = Fin cap \<and> 0 < cap)"
    by (simp add: sliverEnv_def)
  have hs: "1 \<notin> set (cluster \<lparr> cluster = [0], clusterArea = 0, changed = True \<rparr>)
      \<and> polyAt (map (polygonOrNull boxTurf) [sliver, unitSquare 0 0]) 1 = Some (Polygon (unitSquare 0 0))
      \<and> distanceGuard boxTurf sliverEnv 1 = Inr False
      \<and> touchesCluster boxTurf sliverEnv (Polygon (unitSquare 0 0))
          (cluster \<lparr> cluster = [0], clusterArea = 0, changed = True \<rparr>)"
    by code_simp
  from area_guard_caps_admissions [OF ps] none
  have g: "\<not> areaGuard sliverEnv 0 1" by blast
  from area_guard_caps_admissions [OF ps] none hs
  have "expandStep boxTurf sliverEnv 1 \<lparr> cluster = [0], clusterArea = 0, changed = True \<rparr>
          = \<lparr> cluster = [0], clusterArea = 0, changed = True \<rparr>
              \<lparr> cluster := cluster \<lparr> cluster = [0], clusterArea = 0, changed = True \<rparr> @ [1],
                clusterArea := clusterArea \<lparr> cluster = [0], clusterArea = 0, changed = True \<rparr>
                                 + env_areas sliverEnv ! 1,
                changed := True \<rparr>"
    by blast
  then have ad: "expandStep boxTurf sliverEnv 1 \<lparr> cluster = [0], clusterArea = 0, changed = True \<rparr>
       = \<lparr> cluster = [0, 1], clusterArea = 1, changed = True \<rparr>"
    by (simp add: sliverEnv_def)
  from p sel c m t le eq ps none g ad show ?thesis by simp
qed

text \<open>
  The claim as stated fails for a seed without area: the cap is then \<open>0 * 3 = 0\<close>, the
  guard \<^verbatim>\<open>maxClusterArea > 0 && ...\<close> is off, and a unit square is admitted.
\<close>

theorem area_cap_exceeded_counterexample:
  "selectSeed boxTurf (1 / 2, 0) [sliver, unitSquare 0 0]
      (map (polygonOrNull boxTurf) [sliver, unitSquare 0 0]) = Inr (Some 0, Fin 0)
   \<and> prepareGuards boxTurf (1 / 2, 0) (map (polygonOrNull boxTurf) [sliver, unitSquare 0 0])
        2 0 (Fin 0) AREA_MULTIPLIER 2 = Inr sliverEnv
   \<and> env_maxClusterArea sliverEnv = jsnum_times (Fin 0) AREA_MULTIPLIER
   \<and> cluster (growCluster boxTurf sliverEnv 2 0) = [0, 1]
   \<and> clusterArea (growCluster boxTurf sliverEnv 2 0) = 1
   \<and> jsnum_less (env_maxClusterArea sliverEnv) (Fin (clusterArea (growCluster boxTurf sliverEnv 2 0)))"
  by code_simp

text \<open>
  Claim C2, as amended. A member other than the seed whose centroid could be computed
  lies within \<open>maxDistanceKm\<close> of the seed's centroid, and the distance itself was
  computed: a candidate that is farther away, or whose distance throws, is never
  admitted, adjacent or not. A candidate whose centroid could not be computed is not
  tested: it is admitted as soon as it passes the area guard and touches a member, in
  a single step and so in the final cluster.
\<close>

theorem distance_guard_on_known_centroids:
  assumes prep: "prepareGuards T clickPt turfPolys n seedIndex seedArea areaMult maxDist = Inr E"
  shows "env_seedCentroid E
           = (case polyAt turfPolys seedIndex of
                None \<Rightarrow> clickPt
              | Some p \<Rightarrow> (case turf_centroid T p of Inr c \<Rightarrow> c | Inl _ \<Rightarrow> clickPt))
     \<and> (\<forall>i \<in> set (cluster (growCluster T E n seedIndex)). i \<noteq> seedIndex \<longrightarrow>
          (\<forall>p c. polyAt turfPolys i = Some p \<and> turf_centroid T p = Inr c \<longrightarrow>
             (\<exists>d. turf_distance T (env_seedCentroid E) c = Inr d \<and> d \<le> maxDist)))
     \<and> (\<forall>i p c. i \<noteq> seedIndex \<and> polyAt turfPolys i = Some p \<and> turf_centroid T p = Inr c
           \<and> (\<forall>d. turf_distance T (env_seedCentroid E) c = Inr d \<longrightarrow> maxDist < d)
           \<longrightarrow> i \<notin> set (cluster (growCluster T E n seedIndex)))
     \<and> (\<forall>st i p e. i < n \<and> i \<notin> set (cluster st) \<and> polyAt turfPolys i = Some p
           \<and> turf_centroid T p = Inl e
           \<and> \<not> areaGuard E (clusterArea st) (env_areas E ! i)
           \<and> touchesCluster T E p (cluster st)
           \<longrightarrow> expandStep T E i st
                 = st\<lparr> cluster := cluster st @ [i],
                       clusterArea := clusterArea st + env_areas E ! i,
                       changed := True \<rparr>)
     \<and> (\<forall>i p e. i < n \<and> polyAt turfPolys i = Some p \<and> turf_centroid T p = Inl e
           \<and> \<not> areaGuard E (clusterArea (growCluster T E n seedIndex)) (env_areas E ! i)
           \<and> touchesCluster T E p (cluster (growCluster T E n seedIndex))
           \<longrightarrow> i \<in> set (cluster (growCluster T E n seedIndex)))"
proof -
  let ?init = "\<lparr> cluster = [seedIndex], clusterArea = env_areas E ! seedIndex, changed = True \<rparr>"
  let ?final = "growCluster T E n seedIndex"
  let ?I = "\<lambda>st. \<forall>i \<in> set (cluster st). i = seedIndex \<or> (i < n \<and> distanceGuard T E i = Inr False)"
  have inv: "?I ?final"
    unfolding growCluster_def
  proof (rule expand_invariant [where I = ?I])
    show "?I ?init" by simp
  next
    fix st :: clusterState and i
    assume a: "?I st" "i < n"
    show "?I (expandStep T E i st)"
    proof (cases "expandStep T E i st = st")
      case True
      with a show ?thesis by simp
    next
      case False
      from expandStep_admit [OF False] a show ?thesis by auto
    qed
  qed simp
  have near: "\<exists>d. turf_distance T (env_seedCentroid E) c = Inr d \<and> d \<le> maxDist"
    if m: "i \<in> set (cluster ?final)" "i \<noteq> seedIndex"
      and p: "polyAt turfPolys i = Some p" "turf_centroid T p = Inr c" for i p c
  proof -
    from inv m have i: "i < n" and g: "distanceGuard T E i = Inr False" by auto
    from i p have "env_centroids E ! i = Some c"
      by (simp add: prepareGuards_fields(3) [OF prep] centroidOrNull_def)
    with g show ?thesis
      by (auto simp: distanceGuard_def prepareGuards_fields(4) [OF prep] split: sum.splits)
  qed
  have far: "i \<notin> set (cluster ?final)"
    if "i \<noteq> seedIndex" "polyAt turfPolys i = Some p" "turf_centroid T p = Inr c"
      and d: "\<forall>d. turf_distance T (env_seedCentroid E) c = Inr d \<longrightarrow> maxDist < d" for i p c
  proof
    assume "i \<in> set (cluster ?final)"
    from near [OF this that(1,2,3)] obtain d0
      where "turf_distance T (env_seedCentroid E) c = Inr d0" "d0 \<le> maxDist" by blast
    with d show False by fastforce
  qed
  have blind: "distanceGuard T E i = Inr False"
    if "i < n" "polyAt turfPolys i = Some p" "turf_centroid T p = Inl e" for i p e
    using that
    by (simp add: distanceGuard_def prepareGuards_fields(3) [OF prep] centroidOrNull_def)
  have step: "expandStep T E i st
                 = st\<lparr> cluster := cluster st @ [i],
                       clusterArea := clusterArea st + env_areas E ! i,
                       changed := True \<rparr>"
    if "i < n" "i \<notin> set (cluster st)" "polyAt turfPolys i = Some p" "turf_centroid T p = Inl e"
      "\<not> areaGuard E (clusterArea st) (env_areas E ! i)" "touchesCluster T E p (cluster st)"
    for st i p e
    using that blind [OF that(1,3,4)]
    by (simp add: expandStep_def Let_def prepareGuards_fields(1) [OF prep])
  have member: "i \<in> set (cluster ?final)"
    if i: "i < n" and p: "polyAt turfPolys i = Some p" and c: "turf_centroid T p = Inl e"
      and g: "\<not> areaGuard E (clusterArea ?final) (env_areas E ! i)"
      and t: "touchesCluster T E p (cluster ?final)" for i p e
  proof (rule ccontr)
    assume out: "i \<notin> set (cluster ?final)"
    from expand_fixed_point [of T E n ?init] i
    have fixed: "expandStep T E i ?final = ?final" by (simp add: growCluster_def)
    from p have p': "polyAt (env_turfPolys E) i = Some p"
      by (simp add: prepareGuards_fields(1) [OF prep])
    from expandStep_skip [OF fixed out p' blind [OF i p c] g] t show False by simp
  qed
  from prepareGuards_fields(5) [OF prep] near far step member show ?thesis by blast
qed

theorem distance_guard_on_known_centroids_witness:
  "prepareGuards boxTurf (1 / 2, 1 / 2) (map (polygonOrNull boxTurf) row) 5 2 (Fin 1) 3 1 = Inr (rowEnv 3 1)
   \<and> cluster (growCluster boxTurf (rowEnv 3 1) 5 2) = [2, 1]
   \<and> (\<exists>d. turf_distance boxTurf (env_seedCentroid (rowEnv 3 1)) (3 / 2, 1 / 2) = Inr d \<and> d \<le> 1)
   \<and> turf_distance boxTurf (env_seedCentroid (rowEnv 3 1)) (5 / 2, 1 / 2) = Inr 2
   \<and> touchesCluster boxTurf (rowEnv 3 1) (Polygon (unitSquare 2 0)) [2, 1]
   \<and> 0 \<notin> set (cluster (growCluster boxTurf (rowEnv 3 1) 5 2))
   \<and> prepareGuards blindTurf (1 / 2, 1 / 2)
        [Some (Polygon (unitSquare 0 0)), Some (Polygon (unitSquare 1 0))] 2 0 (Fin 1)
        AREA_MULTIPLIER MAX_NEIGHBOR_DISTANCE_KM = Inr blindEnv
   \<and> turf_centroid blindTurf (Polygon (unitSquare 1 0)) = Inl GeometryError
   \<and> expandStep blindTurf blindEnv 1 \<lparr> cluster = [0], clusterArea = 1, changed = True \<rparr>
       = \<lparr> cluster = [0, 1], clusterArea = 2, changed = True \<rparr>
   \<and> 1 \<in> set (cluster (growCluster blindTurf blindEnv 2 0))"
proof -
  have p: "prepareGuards boxTurf (1 / 2, 1 / 2) (map (polygonOrNull boxTurf) row) 5 2 (Fin 1) 3 1
             = Inr (rowEnv 3 1)"
    by (rule row_prepare)
  have m: "cluster (growCluster boxTurf (rowEnv 3 1) 5 2) = [2, 1]" by code_simp
  have q: "polyAt (map (polygonOrNull boxTurf) row) 1 = Some (Polygon (unitSquare 1 0))
           \<and> turf_centroid boxTurf (Polygon (unitSquare 1 0)) = Inr (3 / 2, 1 / 2)"
    by code_simp
  have far: "turf_distance boxTurf (env_seedCentroid (rowEnv 3 1)) (5 / 2, 1 / 2) = Inr 2" by code_simp
  have t: "touchesCluster boxTurf (rowEnv 3 1) (Polygon (unitSquare 2 0)) [2, 1]" by code_simp
  from distance_guard_on_known_centroids [OF p] m q
  have near: "\<exists>d. turf_distance boxTurf (env_seedCentroid (rowEnv 3 1)) (3 / 2, 1 / 2) = Inr d \<and> d \<le> 1"
    by auto
  have q0: "(0::nat) \<noteq> 2 \<and> polyAt (map (polygonOrNull boxTurf) row) 0 = Some (Polygon (unitSquare 2 0))
           \<and> turf_centroid boxTurf (Polygon (unitSquare 2 0)) = Inr (5 / 2, 1 / 2)"
    by code_simp
  from far have far': "\<forall>d. turf_distance boxTurf (env_seedCentroid (rowEnv 3 1)) (5 / 2, 1 / 2) = Inr d
                          \<longrightarrow> 1 < d"
    by simp
  from distance_guard_on_known_centroids [OF p] q0 far'
  have out: "0 \<notin> set (cluster (growCluster boxTurf (rowEnv 3 1) 5 2))"
    by blast
  have pb: "prepareGuards blindTurf (1 / 2, 1 / 2)
        [Some (Polygon (unitSquare 0 0)), Some (Polygon (unitSquare 1 0))] 2 0 (Fin 1)
        AREA_MULTIPLIER MAX_NEIGHBOR_DISTANCE_KM = Inr blindEnv"
    by code_simp
  have cb: "turf_centroid blindTurf (Polygon (unitSquare 1 0)) = Inl GeometryError" by code_simp
  have hb: "(1::nat) < 2 \<and> 1 \<notin> set (cluster \<lparr> cluster = [0], clusterArea = 1, changed = True \<rparr>)
      \<and> polyAt [Some (Polygon (unitSquare 0 0)), Some (Polygon (unitSquare 1 0))] 1
          = Some (Polygon (unitSquare 1 0))
      \<and> \<not> areaGuard blindEnv (clusterArea \<lparr> cluster = [0], clusterArea = 1, changed = True \<rparr>)
            (env_areas blindEnv ! 1)
      \<and> touchesCluster blindTurf blindEnv (Polygon (unitSquare 1 0))
          (cluster \<lparr> cluster = [0], clusterArea = 1, changed = True \<rparr>)"
    by code_simp
  from distance_guard_on_known_centroids [OF pb] hb cb
  have "expandStep blindTurf blindEnv 1 \<lparr> cluster = [0], clusterArea = 1, changed = True \<rparr>
          = \<lparr> cluster = [0], clusterArea = 1, changed = True \<rparr>
              \<lparr> cluster := cluster \<lparr> cluster = [0], clusterArea = 1, changed = True \<rparr> @ [1],
                clusterArea := clusterArea \<lparr> cluster = [0], clusterArea = 1, changed = True \<rparr>
                                 + env_areas blindEnv ! 1,
                changed := True \<rparr>"
    by blast
  then have ad: "expandStep blindTurf blindEnv 1 \<lparr> cluster = [0], clusterArea = 1, changed = True \<rparr>
       = \<lparr> cluster = [0, 1], clusterArea = 2, changed = True \<rparr>"
    by (simp add: blindEnv_def)
  have hf: "(1::nat) < 2
      \<and> polyAt [Some (Polygon (unitSquare 0 0)), Some (Polygon (unitSquare 1 0))] 1
          = Some (Polygon (unitSquare 1 0))
      \<and> \<not> areaGuard blindEnv (clusterArea (growCluster blindTurf blindEnv 2 0)) (env_areas blindEnv ! 1)
      \<and> touchesCluster blindTurf blindEnv (Polygon (unitSquare 1 0))
          (cluster (growCluster blindTurf blindEnv 2 0))"
    by code_simp
  from distance_guard_on_known_centroids [OF pb] hf cb
  have mem: "1 \<in> set (cluster (growCluster blindTurf blindEnv 2 0))"
    by blast
  from p m near far t out pb cb ad mem show ?thesis by simp
qed

text \<open>
  The claim as stated fails in its second half: the neighbour whose centroid fails
  skips the distance guard and is merged, although the same neighbour with a centroid
  is rejected as too far.
\<close>

theorem failed_centroid_admitted_counterexample:
  "turf_centroid blindTurf (Polygon (unitSquare 1 0)) = Inl GeometryError
   \<and> pickOrMergeSourceFeatures blindTurf
        [named (Some (Polygon (unitSquare 0 0))) ''seed'', named (Some (Polygon (unitSquare 1 0))) ''next'']
        (1 / 2, 1 / 2) noOptions
       = Inr (Some (named (Some (Polygon [boxRing (0, 0, 2, 1)])) ''seed''))
   \<and> pickOrMergeSourceFeatures boxTurf
        [named (Some (Polygon (unitSquare 0 0))) ''seed'', named (Some (Polygon (unitSquare 1 0))) ''next'']
        (1 / 2, 1 / 2) noOptions
       = Inr (Some (named (Some (Polygon (unitSquare 0 0))) ''seed''))"
  by code_simp

text \<open>
  Claim C8. The expansion ends in a fixed point: the last pass admitted nobody, one
  more full scan changes nothing, and no fragment left outside that passes the distance
  and the area guard intersects any member of the final cluster. A candidate that
  passes the two guards is admitted as soon as it intersects some member, the seed or
  any other; so a fragment skipped in one pass is admitted in a later one once a
  fragment between it and the seed has joined.
\<close>

theorem expansion_reaches_fixed_point:
  "\<not> changed (growCluster T E n seedIndex)
   \<and> expandPass T E n (growCluster T E n seedIndex) = growCluster T E n seedIndex
   \<and> (\<forall>i < n. i \<notin> set (cluster (growCluster T E n seedIndex)) \<longrightarrow>
        (\<forall>p. polyAt (env_turfPolys E) i = Some p \<and> distanceGuard T E i = Inr False
              \<and> \<not> areaGuard E (clusterArea (growCluster T E n seedIndex)) (env_areas E ! i) \<longrightarrow>
           (\<forall>j \<in> set (cluster (growCluster T E n seedIndex)). \<forall>other.
              polyAt (env_turfPolys E) j = Some other \<longrightarrow> turf_booleanIntersects T p other \<noteq> Inr True)))
   \<and> (\<forall>st i p j other.
        i \<notin> set (cluster st) \<and> polyAt (env_turfPolys E) i = Some p \<and> distanceGuard T E i = Inr False
        \<and> \<not> areaGuard E (clusterArea st) (env_areas E ! i)
        \<and> j \<in> set (cluster st) \<and> polyAt (env_turfPolys E) j = Some other
        \<and> turf_booleanIntersects T p other = Inr True
        \<longrightarrow> cluster (expandStep T E i st) = cluster st @ [i])
   \<and> seedIndex \<in> set (cluster (growCluster T E n seedIndex))"
proof -
  let ?st = "growCluster T E n seedIndex"
  let ?init = "\<lparr> cluster = [seedIndex], clusterArea = env_areas E ! seedIndex, changed = True \<rparr>"
  have fp: "\<not> changed ?st" "expandPass T E n ?st = ?st" "\<forall>i < n. expandStep T E i ?st = ?st"
    using expand_fixed_point [of T E n ?init] by (simp_all add: growCluster_def)
  have out: "turf_booleanIntersects T p other \<noteq> Inr True"
    if "i < n" "i \<notin> set (cluster ?st)" "polyAt (env_turfPolys E) i = Some p"
      "distanceGuard T E i = Inr False" "\<not> areaGuard E (clusterArea ?st) (env_areas E ! i)"
      "j \<in> set (cluster ?st)" "polyAt (env_turfPolys E) j = Some other" for i p j other
  proof -
    from fp(3) that(1) have "expandStep T E i ?st = ?st" by simp
    from expandStep_skip [OF this that(2,3,4,5)] have "\<not> touchesCluster T E p (cluster ?st)" .
    with that(6,7) show ?thesis
      by (auto simp: touchesCluster_def list_ex_iff split: option.splits sum.splits)
  qed
  have adj: "cluster (expandStep T E i st) = cluster st @ [i]"
    if "i \<notin> set (cluster st)" "polyAt (env_turfPolys E) i = Some p" "distanceGuard T E i = Inr False"
      "\<not> areaGuard E (clusterArea st) (env_areas E ! i)"
      "j \<in> set (cluster st)" "polyAt (env_turfPolys E) j = Some other"
      "turf_booleanIntersects T p other = Inr True" for st i p j other
  proof -
    from that(5,6,7) have "touchesCluster T E p (cluster st)"
      by (auto simp: touchesCluster_def list_ex_iff intro!: bexI [of _ j])
    with that(1-4) show ?thesis by (simp add: expandStep_def Let_def)
  qed
  have seed: "seedIndex \<in> set (cluster ?st)"
    unfolding growCluster_def
  proof (rule expand_invariant [where I = "\<lambda>st. seedIndex \<in> set (cluster st)"])
    fix st :: clusterState and i
    assume "seedIndex \<in> set (cluster st)"
    then show "seedIndex \<in> set (cluster (expandStep T E i st))"
      using expandStep_cases [of T E i st] by auto
  qed simp_all
  from fp(1,2) out adj seed show ?thesis by blast
qed


theorem expansion_reaches_fixed_point_witness:
  "cluster (expandPass boxTurf (rowEnv 10 10) 5 \<lparr> cluster = [2], clusterArea = 1, changed = True \<rparr>) = [2, 1]
   \<and> cluster (growCluster boxTurf (rowEnv 10 10) 5 2) = [2, 1, 0, 4]
   \<and> expandPass boxTurf (rowEnv 10 10) 5 (growCluster boxTurf (rowEnv 10 10) 5 2)
       = growCluster boxTurf (rowEnv 10 10) 5 2
   \<and> distanceGuard boxTurf (rowEnv 10 10) 3 = Inr False
   \<and> \<not> areaGuard (rowEnv 10 10) (clusterArea (growCluster boxTurf (rowEnv 10 10) 5 2)) (env_areas (rowEnv 10 10) ! 3)
   \<and> turf_booleanIntersects boxTurf (Polygon (unitSquare 5 0)) (Polygon (unitSquare 3 0)) \<noteq> Inr True
   \<and> turf_booleanIntersects boxTurf (Polygon (unitSquare 2 0)) (Polygon (unitSquare 0 0)) = Inr False
   \<and> cluster (expandStep boxTurf (rowEnv 10 10) 0 \<lparr> cluster = [2, 1], clusterArea = 2, changed = True \<rparr>)
       = [2, 1, 0]"
proof -
  let ?E = "rowEnv 10 10"
  let ?st = "growCluster boxTurf ?E 5 2"
  let ?mid = "\<lparr> cluster = [2, 1], clusterArea = 2, changed = True \<rparr>"
  have p1: "cluster (expandPass boxTurf ?E 5 \<lparr> cluster = [2], clusterArea = 1, changed = True \<rparr>) = [2, 1]"
    by code_simp
  have m: "cluster ?st = [2, 1, 0, 4]" by code_simp
  have o: "(3::nat) < 5 \<and> 3 \<notin> set (cluster ?st) \<and> polyAt (env_turfPolys ?E) 3 = Some (Polygon (unitSquare 5 0))
           \<and> distanceGuard boxTurf ?E 3 = Inr False
           \<and> \<not> areaGuard ?E (clusterArea ?st) (env_areas ?E ! 3)
           \<and> 4 \<in> set (cluster ?st) \<and> polyAt (env_turfPolys ?E) 4 = Some (Polygon (unitSquare 3 0))"
    by code_simp
  have h: "0 \<notin> set (cluster ?mid) \<and> polyAt (env_turfPolys ?E) 0 = Some (Polygon (unitSquare 2 0))
           \<and> distanceGuard boxTurf ?E 0 = Inr False
           \<and> \<not> areaGuard ?E (clusterArea ?mid) (env_areas ?E ! 0)
           \<and> 1 \<in> set (cluster ?mid) \<and> polyAt (env_turfPolys ?E) 1 = Some (Polygon (unitSquare 1 0))
           \<and> turf_booleanIntersects boxTurf (Polygon (unitSquare 2 0)) (Polygon (unitSquare 1 0)) = Inr True"
    by code_simp
  have s: "turf_booleanIntersects boxTurf (Polygon (unitSquare 2 0)) (Polygon (unitSquare 0 0)) = Inr False"
    by code_simp
  note t = expansion_reaches_fixed_point [of boxTurf ?E 5 2]
  from t have fp: "expandPass boxTurf ?E 5 ?st = ?st" by blast
  from t o have out: "turf_booleanIntersects boxTurf (Polygon (unitSquare 5 0)) (Polygon (unitSquare 3 0)) \<noteq> Inr True"
    by blast
  from t h have hop: "cluster (expandStep boxTurf ?E 0 ?mid) = cluster ?mid @ [0]"
    by blast
  from p1 m fp o out s hop show ?thesis by simp
qed

section \<open>The shape of the output\<close>

text \<open>
  With a union that returns a Polygon or a MultiPolygon with parts, and a cleanup that
  keeps a Polygon a Polygon, steps 3 to 5 give a Polygon for every cluster whose union
  is not null.
\<close>

lemma unionLoop_shape:
  assumes u: "\<And>g h r. turf_union T g h = Inr (Some r) \<Longrightarrow> unionShaped r"
  shows "unionShaped start \<Longrightarrow> unionLoop T start cs = Some r \<Longrightarrow> unionShaped r"
proof (induction cs arbitrary: start)
  case Nil
  then show ?case by simp
next
  case (Cons c cs)
  then show ?case
    by (auto split: sum.splits option.splits dest: u)
qed

lemma singlePolygonOf_shape:
  "\<exists>c. singlePolygonOf T clickPt g = Polygon c" if "unionShaped g"
proof (cases g)
  case (MultiPolygon parts)
  with that have "parts \<noteq> []" by (simp add: unionShaped_def)
  then have "length parts = 1 \<or> 1 < length parts" by (cases parts) auto
  with MultiPolygon show ?thesis by (auto simp: singlePolygonOf_def)
qed (use that in \<open>auto simp: singlePolygonOf_def unionShaped_def\<close>)

lemma output_is_polygon_unless_union_null:
  assumes u: "\<And>g h r. turf_union T g h = Inr (Some r) \<Longrightarrow> unionShaped r"
    and c: "\<And>coords r. turf_cleanCoords T (Polygon coords) = Inr (Some r) \<Longrightarrow> \<exists>c. r = Polygon c"
    and n: "unionCluster T (map (\<lambda>i. allCoords ! i) members) \<noteq> None \<or> length members \<le> 1"
  shows "\<exists>c. geometry (mergeCluster T first clickPt allCoords seedIndex members) = Some (Polygon c)"
proof (cases "length members \<le> 1")
  case True
  then have "length members = 0 \<or> length members = 1" by linarith
  then show ?thesis by (auto simp: mergeCluster_def Let_def)
next
  case False
  let ?cc = "map (\<lambda>i. allCoords ! i) members"
  from False n obtain r where r: "unionCluster T ?cc = Some r" by auto
  have "unionShaped r"
  proof -
    from r obtain c0 cs where cc: "?cc = c0 # cs" and v: "turf_polygon T c0 = Inr (Polygon c0)"
      and l: "unionLoop T (Polygon c0) cs = Some r"
      by (auto simp: unionCluster_def turf_polygon_def split: list.splits sum.splits if_splits)
    have "unionShaped (Polygon c0)" by (simp add: unionShaped_def)
    from unionLoop_shape [of T, OF u this l] show ?thesis .
  qed
  then obtain p where p: "singlePolygonOf T clickPt r = Polygon p"
    using singlePolygonOf_shape by blast
  have "\<exists>c. cleanup T (Polygon p) = Polygon c"
    using c [of p] by (auto simp: cleanup_def split: sum.splits option.splits)
  with False r p show ?thesis
    by (auto simp: mergeCluster_def Let_def finalGeometryOf_def)
qed

text \<open>
  Claim C1. Two fragments that are the same degenerate polygon: both are valid, the
  click point lies on them, the second joins the cluster, and their union is null. The
  fallback of step 4 then returns a MultiPolygon of the cluster's coordinates.
\<close>

theorem union_failure_yields_multipolygon:
  "pickOrMergeSourceFeatures boxTurf
      [named (Some (Polygon sliver)) ''a'', named (Some (Polygon sliver)) ''b''] (1 / 2, 0) noOptions
     = Inr (Some (named (Some (MultiPolygon [sliver, sliver])) ''a''))"
  by code_simp

section \<open>The two arrays of the flattening\<close>

text \<open>
  A polygon that \<^verbatim>\<open>turf.polygon\<close> refuses is pushed to \<open>coords\<close> twice and to
  \<open>turfPolys\<close> once.
\<close>

lemma refused_polygon_pushed_twice:
  "hasOuterRing coords \<Longrightarrow> \<not> turf_polygon_valid T coords \<Longrightarrow>
   extractPolygonCoords T [f\<lparr> geometry := Some (Polygon coords) \<rparr>] = ([coords, coords], [None])"
  by (simp add: extractPolygonCoords_def coordsPushed_def polygonOrNull_def turf_polygon_def)

text \<open>
  From there on index \<open>i\<close> of \<open>turfPolys\<close> no longer belongs to index \<open>i\<close> of
  \<open>coords\<close>. Here the first feature has a ring that is not closed and the second is a
  unit square holding the click point: the seed is index 1 of \<open>turfPolys\<close>, the square,
  and the result has the coordinates at index 1 of \<open>coords\<close>, the refused ring.
\<close>

lemma arrays_out_of_step:
  "extractPolygonCoords boxTurf
      [named (Some (Polygon (openSquare 10 10))) ''open'', named (Some (Polygon (unitSquare 0 0))) ''square'']
     = ([openSquare 10 10, openSquare 10 10, unitSquare 0 0], [None, Some (Polygon (unitSquare 0 0))])
   \<and> pickOrMergeSourceFeatures boxTurf
        [named (Some (Polygon (openSquare 10 10))) ''open'', named (Some (Polygon (unitSquare 0 0))) ''square'']
        (1 / 2, 1 / 2) noOptions
       = Inr (Some (named (Some (Polygon (openSquare 10 10))) ''open''))"
  by code_simp

end
